theory Spec2Isabelle
  imports Complex_Main "HOL-Library.Multiset"
begin

section \<open>Shared data: configuration, Telegram context, log records, replies\<close>

text \<open>
  The bot's static configuration (config.json). Only the keys the modelled code reads
  are kept. \<open>ADMINS\<close> may be missing (falsy), an array of ids, or a truthy value
  without an \<open>includes\<close> method (a malformed configuration, on which
  \<open>config.ADMINS.includes(userId)\<close> throws a TypeError). \<open>MAX_REQUESTS\<close> and
  \<open>TIME_WINDOW\<close> stand for \<open>config.FLOOD_CONTROL?.MAX_REQUESTS\<close> and
  \<open>config.FLOOD_CONTROL?.TIME_WINDOW\<close>; \<open>None\<close> is undefined.
\<close>

datatype admins_cfg = AdminsAbsent | AdminsList "int list" | AdminsMalformed

record config =
  OWNER_ID :: int
  ADMINS :: admins_cfg
  MAX_REQUESTS :: "int option"
  TIME_WINDOW :: "int option"

text \<open>The sender of an update (\<open>ctx.from\<close>) and the part of the context the code reads.\<close>

record tg_user =
  uid :: int
  username :: "string option"

record tg_context =
  sender :: "tg_user option"
  message_text :: "string option"

text \<open>
  The outcome of an awaited call to the chat platform (\<open>ctx.reply\<close>,
  \<open>editMessageText\<close>, \<open>sendMessage\<close>): it resolves, or it rejects with an error
  whose message is kept.
\<close>

datatype io_result = Resolves | Rejects string

text \<open>
  A JavaScript number as far as the cooldown arithmetic needs it: an integer, or
  \<open>Infinity\<close> (the value of \<open>Math.min()\<close> on no arguments).
\<close>

datatype jsnum = Finite int | PosInfinity

text \<open>
  The records handed to \<open>logger.log\<close>, one constructor per \<open>type\<close> field, with the
  fields in the order of the source; the \<open>timestamp\<close> field (a wall-clock string) is
  left out.
\<close>

datatype log_record =
    FloodControlTriggered int string nat int jsnum
  | MiddlewareError string "int option" "string option" string
  | UnauthorizedAccess int string string
  | AdminCommand string int string "nat option"
  | BroadcastDeliveryFailed int string
  | BroadcastCompleted int string nat nat nat int string
  | AdminCommandError string "int option" "string option" string
  | BotShutdownInitiated int string

text \<open>
  The messages the bot sends to the calling chat. Their wording is fixed text in the
  source; a constructor stands for each text and carries the values spliced into it.
\<close>

datatype reply =
    SlowDown jsnum int int
  | AccessDeniedAdminsOnly
  | PermissionSystemError
  | AccessDeniedOwnerOnly
  | ShutdownConfirmation
  | ShuttingDown int
  | ShutdownError string
  | MissingParameter
  | EmptyBroadcast
  | NoUsersFound
  | BroadcastConfirmation string nat
  | StartingBroadcast
  | GeneralError

text \<open>\<open>x || 'Unknown'\<close> on an optional string: undefined and the empty string are falsy.\<close>

definition or_unknown :: "string option \<Rightarrow> string" where
  "or_unknown s = (case s of None \<Rightarrow> ''Unknown'' | Some v \<Rightarrow> if v = [] then ''Unknown'' else v)"

section \<open>Flood control (middlewares/floodControl.js)\<close>

text \<open>
  \<open>userId === config.OWNER_ID || (config.ADMINS && config.ADMINS.includes(userId))\<close>:
  the owner test short-circuits; a malformed \<open>ADMINS\<close> throws.
\<close>

definition skip_flood_control :: "config \<Rightarrow> int \<Rightarrow> string + bool" where
  "skip_flood_control cfg userId =
     (if userId = OWNER_ID cfg then Inr True
      else case ADMINS cfg of
             AdminsAbsent \<Rightarrow> Inr False
           | AdminsList ids \<Rightarrow> Inr (userId \<in> set ids)
           | AdminsMalformed \<Rightarrow> Inl ''config.ADMINS.includes is not a function'')"

text \<open>\<open>config.FLOOD_CONTROL?.MAX_REQUESTS || 5\<close>: undefined and 0 are falsy.\<close>

definition maxRequests :: "config \<Rightarrow> int" where
  "maxRequests cfg = (case MAX_REQUESTS cfg of None \<Rightarrow> 5 | Some n \<Rightarrow> if n = 0 then 5 else n)"

text \<open>\<open>config.FLOOD_CONTROL?.TIME_WINDOW || 60000\<close>.\<close>

definition timeWindow :: "config \<Rightarrow> int" where
  "timeWindow cfg = (case TIME_WINDOW cfg of None \<Rightarrow> 60000 | Some n \<Rightarrow> if n = 0 then 60000 else n)"

text \<open>\<open>Math.min(...xs)\<close>: \<open>Infinity\<close> on no arguments.\<close>

fun math_min :: "int list \<Rightarrow> jsnum" where
  "math_min [] = PosInfinity"
| "math_min (x # xs) = (case math_min xs of PosInfinity \<Rightarrow> Finite x | Finite m \<Rightarrow> Finite (min x m))"

text \<open>
  \<open>Math.ceil(a / 1000)\<close> on an integer \<open>a\<close> (timestamps and windows are integers of
  milliseconds, far below \<open>2^53\<close>, so the double division is exact enough for the
  ceiling): integer division rounds down, so the ceiling is the negated floor of the
  negation.
\<close>

definition ceil_div_1000 :: "int \<Rightarrow> int" where
  "ceil_div_1000 a = - ((- a) div 1000)"

text \<open>
  \<open>Math.ceil((timeWindow - (now - oldestRequest)) / 1000)\<close> with
  \<open>oldestRequest = Math.min(...validRequests)\<close>.
\<close>

definition remainingTime :: "int \<Rightarrow> int \<Rightarrow> int list \<Rightarrow> jsnum" where
  "remainingTime tw now validRequests =
     (case math_min validRequests of
        PosInfinity \<Rightarrow> PosInfinity
      | Finite oldestRequest \<Rightarrow> Finite (ceil_div_1000 (tw - (now - oldestRequest))))"

text \<open>
  \<open>requests.filter(timestamp => now - timestamp < timeWindow)\<close>, the pruning both the
  middleware and the clean-up timer apply.
\<close>

definition within_window :: "config \<Rightarrow> int \<Rightarrow> int list \<Rightarrow> int list" where
  "within_window cfg now requests = filter (\<lambda>timestamp. now - timestamp < timeWindow cfg) requests"

text \<open>The array stored for a user, empty when the map has no entry.\<close>

definition requests_of :: "(int \<rightharpoonup> int list) \<Rightarrow> int \<Rightarrow> int list" where
  "requests_of reqs userId = (case reqs userId of None \<Rightarrow> [] | Some r \<Rightarrow> r)"

text \<open>
  The four ways the middleware ends: \<open>return next()\<close> for an owner or admin (line 19),
  \<open>return next()\<close> after recording the request (line 70), \<open>return\<close> without
  \<open>next()\<close> after the cooldown message (line 62), and \<open>return next()\<close> in the
  \<open>catch\<close> block (line 86).
\<close>

datatype decision = Exempt | Allowed | Rejected jsnum | FailedOpen string

definition next_called :: "decision \<Rightarrow> bool" where
  "next_called d = (case d of Rejected r \<Rightarrow> False | Exempt \<Rightarrow> True | Allowed \<Rightarrow> True | FailedOpen e \<Rightarrow> True)"

record fc_result =
  decision :: decision
  fc_logs :: "log_record list"
  fc_replies :: "reply list"
  userRequests :: "int \<rightharpoonup> int list"

text \<open>
  The \<open>try\<close> block of \<open>floodControl\<close>. \<open>Inl e\<close> is an exception with message
  \<open>e\<close> thrown inside the block; the log records, replies and map reached before the
  throw are returned with it. \<open>now\<close> is the reading of \<open>Date.now()\<close> and
  \<open>cooldown_io\<close> the outcome of the awaited \<open>ctx.reply\<close> of the cooldown message.
\<close>

definition floodControl_try ::
  "config \<Rightarrow> tg_context \<Rightarrow> int \<Rightarrow> io_result \<Rightarrow> (int \<rightharpoonup> int list) \<Rightarrow>
     (string + decision) \<times> log_record list \<times> reply list \<times> (int \<rightharpoonup> int list)" where
  "floodControl_try cfg ctx now cooldown_io reqs =
     (case sender ctx of
        None \<Rightarrow> (Inl ''Cannot read properties of undefined (reading id)'', [], [], reqs)
      | Some u \<Rightarrow>
          (case skip_flood_control cfg (uid u) of
             Inl e \<Rightarrow> (Inl e, [], [], reqs)
           | Inr True \<Rightarrow> (Inr Exempt, [], [], reqs)
           | Inr False \<Rightarrow>
               (let reqs1 = (if reqs (uid u) = None then reqs(uid u \<mapsto> []) else reqs);
                    requests = requests_of reqs1 (uid u);
                    validRequests = within_window cfg now requests
                in if maxRequests cfg \<le> int (length validRequests)
                   then
                     (let remaining = remainingTime (timeWindow cfg) now validRequests;
                          lg = [FloodControlTriggered (uid u) (or_unknown (username u))
                                  (length validRequests) (maxRequests cfg) remaining];
                          rp = [SlowDown remaining (maxRequests cfg) (timeWindow cfg)]
                      in case cooldown_io of
                           Resolves \<Rightarrow> (Inr (Rejected remaining), lg, rp, reqs1)
                         | Rejects e \<Rightarrow> (Inl e, lg, rp, reqs1))
                   else (Inr Allowed, [], [], reqs1(uid u \<mapsto> validRequests @ [now])))))"

text \<open>
  The whole middleware: the \<open>catch\<close> block logs a \<open>middleware_error\<close> record and
  calls \<open>next()\<close>.
\<close>

definition floodControl ::
  "config \<Rightarrow> tg_context \<Rightarrow> int \<Rightarrow> io_result \<Rightarrow> (int \<rightharpoonup> int list) \<Rightarrow> fc_result" where
  "floodControl cfg ctx now cooldown_io reqs =
     (case floodControl_try cfg ctx now cooldown_io reqs of
        (Inr d, lg, rp, reqs') \<Rightarrow>
          \<lparr>decision = d, fc_logs = lg, fc_replies = rp, userRequests = reqs'\<rparr>
      | (Inl e, lg, rp, reqs') \<Rightarrow>
          \<lparr>decision = FailedOpen e,
           fc_logs = lg @ [MiddlewareError ''floodControl'' (map_option uid (sender ctx))
                             (case sender ctx of None \<Rightarrow> None | Some u \<Rightarrow> username u) e],
           fc_replies = rp, userRequests = reqs'\<rparr>)"

text \<open>
  The periodic clean-up (the \<open>setInterval\<close> callback): every tracked user keeps the
  timestamps still inside the window; a user left with none is deleted.
\<close>

definition cleanup :: "config \<Rightarrow> int \<Rightarrow> (int \<rightharpoonup> int list) \<Rightarrow> (int \<rightharpoonup> int list)" where
  "cleanup cfg now reqs =
     (\<lambda>userId. case reqs userId of
                  None \<Rightarrow> None
                | Some requests \<Rightarrow>
                    (let validRequests = within_window cfg now requests
                     in if validRequests = [] then None else Some validRequests))"

text \<open>
  The life of the module-level map: it starts empty and is touched only by the
  middleware (one call per update) and by the clean-up timer. A run records, for every
  update, who sent it, the clock reading and how the middleware ended.
\<close>

datatype event = Update tg_context int io_result | Sweep int

fun event_time :: "event \<Rightarrow> int" where
  "event_time (Update ctx now cooldown_io) = now"
| "event_time (Sweep now) = now"

type_synonym fc_history = "(int option \<times> int \<times> decision) list"

fun fc_step :: "config \<Rightarrow> (int \<rightharpoonup> int list) \<times> fc_history \<Rightarrow> event \<Rightarrow> (int \<rightharpoonup> int list) \<times> fc_history" where
  "fc_step cfg (reqs, hist) (Update ctx now cooldown_io) =
     (let r = floodControl cfg ctx now cooldown_io reqs
      in (userRequests r, hist @ [(map_option uid (sender ctx), now, decision r)]))"
| "fc_step cfg (reqs, hist) (Sweep now) = (cleanup cfg now reqs, hist)"

definition fc_run :: "config \<Rightarrow> event list \<Rightarrow> (int \<rightharpoonup> int list) \<times> fc_history" where
  "fc_run cfg evs = foldl (fc_step cfg) (Map.empty, []) evs"

text \<open>
  The updates of user \<open>u\<close> in a history that satisfy \<open>P\<close> on their decision and whose
  clock reading lies in the trailing window of length \<open>w\<close> ending at \<open>T\<close>: the
  readings \<open>t\<close> with \<open>t \<le> T\<close> and \<open>T - t < w\<close>, the test the middleware itself uses.
\<close>

definition in_window :: "(decision \<Rightarrow> bool) \<Rightarrow> int \<Rightarrow> int \<Rightarrow> int \<Rightarrow> fc_history \<Rightarrow> nat" where
  "in_window P u w T hist =
     length (filter (\<lambda>(who, t, d). who = Some u \<and> P d \<and> t \<le> T \<and> T - t < w) hist)"

section \<open>The admin gate (middlewares/isAdmin.js)\<close>

text \<open>
  What the middleware leaves behind: whether it called \<open>next()\<close> (the guarded
  handler runs only then), the flags it set on the context, the records it logged, the
  replies it sent, and the rejection that leaves it when the reply in its \<open>catch\<close>
  block fails.
\<close>

record admin_result =
  handler_invoked :: bool
  ctx_isOwner :: bool
  ctx_isAdmin :: bool
  ia_logs :: "log_record list"
  ia_replies :: "reply list"
  ia_uncaught :: "string option"

text \<open>
  The \<open>try\<close> block of \<open>isAdmin\<close>; \<open>denial_io\<close> is the outcome of the awaited reply
  of the denial message. The first component is the exception thrown inside the block.
\<close>

definition isAdmin_try :: "config \<Rightarrow> tg_context \<Rightarrow> io_result \<Rightarrow> string option \<times> admin_result" where
  "isAdmin_try cfg ctx denial_io =
     (let none = \<lparr>handler_invoked = False, ctx_isOwner = False, ctx_isAdmin = False,
                  ia_logs = [], ia_replies = [], ia_uncaught = None\<rparr>;
          deny = (\<lambda>u. (case denial_io of Resolves \<Rightarrow> None | Rejects e \<Rightarrow> Some e,
                        none\<lparr>ia_logs := [UnauthorizedAccess (uid u) (or_unknown (username u))
                                           (or_unknown (message_text ctx))],
                             ia_replies := [AccessDeniedAdminsOnly]\<rparr>))
      in case sender ctx of
           None \<Rightarrow> (Some ''Cannot read properties of undefined (reading id)'', none)
         | Some u \<Rightarrow>
             if uid u = OWNER_ID cfg
             then (None, none\<lparr>handler_invoked := True, ctx_isOwner := True, ctx_isAdmin := True\<rparr>)
             else (case ADMINS cfg of
                     AdminsAbsent \<Rightarrow> deny u
                   | AdminsMalformed \<Rightarrow> (Some ''config.ADMINS.includes is not a function'', none)
                   | AdminsList ids \<Rightarrow>
                       if uid u \<in> set ids
                       then (None, none\<lparr>handler_invoked := True, ctx_isAdmin := True\<rparr>)
                       else deny u))"

text \<open>
  The whole middleware: the \<open>catch\<close> block logs, replies with the system-error text
  (outcome \<open>error_io\<close>) and returns without \<open>next()\<close>.
\<close>

definition isAdmin :: "config \<Rightarrow> tg_context \<Rightarrow> io_result \<Rightarrow> io_result \<Rightarrow> admin_result" where
  "isAdmin cfg ctx denial_io error_io =
     (case isAdmin_try cfg ctx denial_io of
        (None, r) \<Rightarrow> r
      | (Some e, r) \<Rightarrow>
          r\<lparr>ia_logs := ia_logs r @ [MiddlewareError ''isAdmin'' (map_option uid (sender ctx))
                                      (case sender ctx of None \<Rightarrow> None | Some u \<Rightarrow> username u) e],
            ia_replies := ia_replies r @ [PermissionSystemError],
            ia_uncaught := (case error_io of Resolves \<Rightarrow> None | Rejects e' \<Rightarrow> Some e')\<rparr>)"

section \<open>The shutdown command (commands/admins/shutdown.js)\<close>

record shutdown_io =
  denial_reply :: io_result
  confirmation_reply :: io_result
  final_reply :: io_result
  error_reply :: io_result

record shutdown_result =
  process_exited :: bool
  sd_logs :: "log_record list"
  sd_replies :: "reply list"
  sd_uncaught :: "string option"

text \<open>The \<open>try\<close> block of \<open>execute\<close>; \<open>process.exit(0)\<close> is \<open>process_exited = True\<close>.\<close>

definition shutdown_try :: "config \<Rightarrow> tg_context \<Rightarrow> shutdown_io \<Rightarrow> string option \<times> shutdown_result" where
  "shutdown_try cfg ctx io =
     (let none = \<lparr>process_exited = False, sd_logs = [], sd_replies = [], sd_uncaught = None\<rparr>
      in case sender ctx of
           None \<Rightarrow> (Some ''Cannot read properties of undefined (reading language_code)'', none)
         | Some user \<Rightarrow>
             if uid user \<noteq> OWNER_ID cfg
             then (case denial_reply io of Resolves \<Rightarrow> None | Rejects e \<Rightarrow> Some e,
                   none\<lparr>sd_replies := [AccessDeniedOwnerOnly]\<rparr>)
             else
               (let r1 = none\<lparr>sd_logs := [AdminCommand ''/shutdown'' (uid user) (or_unknown (username user)) None],
                               sd_replies := [ShutdownConfirmation]\<rparr>
                in case confirmation_reply io of
                     Rejects e \<Rightarrow> (Some e, r1)
                   | Resolves \<Rightarrow>
                       (let r2 = r1\<lparr>sd_replies := sd_replies r1 @ [ShuttingDown (uid user)]\<rparr>
                        in case final_reply io of
                             Rejects e \<Rightarrow> (Some e, r2)
                           | Resolves \<Rightarrow>
                               (None, r2\<lparr>sd_logs := sd_logs r2 @
                                            [BotShutdownInitiated (uid user) (or_unknown (username user))],
                                          process_exited := True\<rparr>))))"

definition shutdown_execute :: "config \<Rightarrow> tg_context \<Rightarrow> shutdown_io \<Rightarrow> shutdown_result" where
  "shutdown_execute cfg ctx io =
     (case shutdown_try cfg ctx io of
        (None, r) \<Rightarrow> r
      | (Some e, r) \<Rightarrow>
          r\<lparr>sd_logs := sd_logs r @ [AdminCommandError ''/shutdown'' (map_option uid (sender ctx))
                                      (case sender ctx of None \<Rightarrow> None | Some u \<Rightarrow> username u) e],
            sd_replies := sd_replies r @ [ShutdownError e],
            sd_uncaught := (case error_reply io of Resolves \<Rightarrow> None | Rejects e' \<Rightarrow> Some e')\<rparr>)"

text \<open>
  The router registers admin commands as \<open>bot.command(name, isAdmin, execute)\<close>: the
  handler runs only when the gate called \<open>next()\<close>. The result pairs what the gate
  did with what the handler did, if it ran.
\<close>

definition shutdown_command ::
  "config \<Rightarrow> tg_context \<Rightarrow> io_result \<Rightarrow> io_result \<Rightarrow> shutdown_io \<Rightarrow> admin_result \<times> shutdown_result option" where
  "shutdown_command cfg ctx denial_io error_io io =
     (let gate = isAdmin cfg ctx denial_io error_io
      in (gate, if handler_invoked gate then Some (shutdown_execute cfg ctx io) else None))"

section \<open>The broadcast command (commands/admins/broadcast.js)\<close>

text \<open>
  What the command text holds after \<open>/broadcast\<close> (lines 99 to 107): no second part
  at all (\<open>parts.length < 2\<close>), or the trimmed rest of the text, which may be empty.
\<close>

datatype command_argument = NoArgument | Argument string

text \<open>
  The edits of the status message: the progress text after a batch (delivered, failed,
  processed, total) and the completion text (delivered, failed, total, seconds). The
  percentages shown in both are computed from these numbers.
\<close>

datatype status_edit = ProgressMessage nat nat nat nat | CompletedMessage nat nat nat int

text \<open>
  Everything the handler does to the outside, in the order it does it: a call of
  \<open>sendMessage\<close> for a recipient, a record handed to the logger, a reply to the
  admin, an edit of the status message, a delay in milliseconds.
\<close>

datatype bc_event =
    SendMessage int
  | Logged log_record
  | Replied reply
  | EditStatus status_edit
  | Delay nat

text \<open>
  The world around one run of the handler: the snapshot \<open>fileHelper.getAllUsers()\<close>
  returns; for each recipient id, the outcome of a call of the API client's
  \<open>sendMessage\<close> and the moment that call settles; the outcome of each reply and of
  each edit of the status message; and the two readings of \<open>Date.now()\<close> (before the
  first batch and after the last).
\<close>

record broadcast_env =
  all_users :: "tg_user list"
  send_io :: "int \<Rightarrow> io_result"
  settle_time :: "int \<Rightarrow> nat"
  reply_io :: "reply \<Rightarrow> io_result"
  edit_io :: "status_edit \<Rightarrow> io_result"
  startTime :: int
  endTime :: int

record bc_state =
  trace :: "bc_event list"
  successCount :: nat
  failureCount :: nat
  processedCount :: nat

definition batchSize :: nat where
  "batchSize = 30"

text \<open>\<open>xs.slice(a, b)\<close> for indices \<open>0 \<le> a \<le> b\<close>: the end is clipped to the length.\<close>

definition slice :: "'a list \<Rightarrow> nat \<Rightarrow> nat \<Rightarrow> 'a list" where
  "slice xs a b = take (b - a) (drop a xs)"

text \<open>
  \<open>for (let i = 0; i < users.length; i += batchSize) batches.push(users.slice(i, i + batchSize))\<close>,
  from index \<open>i\<close> on. The source's step is the constant 30; with a step of 0 the loop
  would never end, and the model stops there at once, so every statement about it
  takes a positive step.
\<close>

function make_batches :: "nat \<Rightarrow> 'a list \<Rightarrow> nat \<Rightarrow> 'a list list" where
  "make_batches bs users i =
     (if i < length users \<and> 0 < bs then slice users i (i + bs) # make_batches bs users (i + bs) else [])"
  by pat_completeness auto
termination
  by (relation "measure (\<lambda>(bs, users, i). length users - i)") auto

text \<open>
  The value handed to \<open>sendMessageToUser\<close> as \<open>bot\<close>. Its documentation asks for a
  Telegraf bot instance, whose property \<open>telegram\<close> is the API client. The API client
  itself (the object whose \<open>sendMessage\<close> and \<open>editMessageText\<close> the handlers call
  directly, \<open>ctx.telegram\<close>) has no property \<open>telegram\<close>.
\<close>

datatype bot_arg = TelegrafInstance | ApiClient

text \<open>
  How one \<open>sendMessageToUser\<close> ends. With a bot instance,
  \<open>bot.telegram.sendMessage(...)\<close> is called and the call resolves (\<open>true\<close> is
  returned) or rejects. With the API client, \<open>bot.telegram\<close> is undefined and
  evaluating \<open>bot.telegram.sendMessage\<close> throws a TypeError before any call is made.
  Both failures are caught inside the function, logged with the recipient id and the
  error message, and turned into \<open>false\<close>.
\<close>

datatype send_outcome = Delivered | FailedAfterCall string | FailedBeforeCall string

definition sendMessageToUser :: "bot_arg \<Rightarrow> (int \<Rightarrow> io_result) \<Rightarrow> int \<Rightarrow> send_outcome" where
  "sendMessageToUser bt send userId =
     (case bt of
        ApiClient \<Rightarrow> FailedBeforeCall ''Cannot read properties of undefined (reading sendMessage)''
      | TelegrafInstance \<Rightarrow>
          (case send userId of Resolves \<Rightarrow> Delivered | Rejects e \<Rightarrow> FailedAfterCall e))"

text \<open>
  What the callback mapped over a batch does for one user while \<open>batch.map\<close> runs:
  either the call of \<open>sendMessage\<close> is made (and is then awaited), or the TypeError is
  thrown, caught and logged on the spot.
\<close>

definition started_events :: "bot_arg \<Rightarrow> (int \<Rightarrow> io_result) \<Rightarrow> tg_user \<Rightarrow> bc_event list" where
  "started_events bt send targetUser =
     (case sendMessageToUser bt send (uid targetUser) of
        Delivered \<Rightarrow> [SendMessage (uid targetUser)]
      | FailedAfterCall e \<Rightarrow> [SendMessage (uid targetUser)]
      | FailedBeforeCall e \<Rightarrow> [Logged (BroadcastDeliveryFailed (uid targetUser) e)])"

text \<open>What it does when an awaited call settles: a rejection is caught and logged.\<close>

definition settled_events :: "bot_arg \<Rightarrow> (int \<Rightarrow> io_result) \<Rightarrow> tg_user \<Rightarrow> bc_event list" where
  "settled_events bt send targetUser =
     (case sendMessageToUser bt send (uid targetUser) of
        Delivered \<Rightarrow> []
      | FailedAfterCall e \<Rightarrow> [Logged (BroadcastDeliveryFailed (uid targetUser) e)]
      | FailedBeforeCall e \<Rightarrow> [])"

text \<open>The rest of the callback, after \<open>await sendMessageToUser(...)\<close>: the three counters.\<close>

definition count_result :: "bot_arg \<Rightarrow> (int \<Rightarrow> io_result) \<Rightarrow> bc_state \<Rightarrow> tg_user \<Rightarrow> bc_state" where
  "count_result bt send st targetUser =
     (let success = (sendMessageToUser bt send (uid targetUser) = Delivered)
      in st\<lparr>successCount := (if success then successCount st + 1 else successCount st),
            failureCount := (if success then failureCount st else failureCount st + 1),
            processedCount := processedCount st + 1\<rparr>)"

text \<open>
  \<open>await Promise.all(batch.map(...))\<close>: the callbacks are started in the order of the
  batch, and every one has run to its end before the loop goes on. The awaited calls
  settle in the order of their settling moments (calls that settle together, in the
  order they were started), and each callback logs its failure and counts its result
  then.
\<close>

definition run_batch :: "bot_arg \<Rightarrow> broadcast_env \<Rightarrow> bc_state \<Rightarrow> tg_user list \<Rightarrow> bc_state" where
  "run_batch bt env st batch =
     (let settled = sort_key (\<lambda>u. settle_time env (uid u)) batch;
          st1 = st\<lparr>trace := trace st @ concat (map (started_events bt (send_io env)) batch)
                                 @ concat (map (settled_events bt (send_io env)) settled)\<rparr>
      in foldl (count_result bt (send_io env)) st1 settled)"

text \<open>
  The progress edit inside its own \<open>try\<close>/\<open>catch\<close>: the edit is attempted, and both
  outcomes leave the handler in the same state.
\<close>

definition report_progress :: "broadcast_env \<Rightarrow> nat \<Rightarrow> bc_state \<Rightarrow> bc_state" where
  "report_progress env totalUsers st =
     (let msg = ProgressMessage (successCount st) (failureCount st) (processedCount st) totalUsers;
          st' = st\<lparr>trace := trace st @ [EditStatus msg]\<rparr>
      in case edit_io env msg of Resolves \<Rightarrow> st' | Rejects editError \<Rightarrow> st')"

text \<open>
  The loop over the batches: the batch, the progress edit, and a delay of one second
  unless the batch is the last (\<open>batchIndex < batches.length - 1\<close>).
\<close>

fun run_batches :: "bot_arg \<Rightarrow> broadcast_env \<Rightarrow> nat \<Rightarrow> tg_user list list \<Rightarrow> bc_state \<Rightarrow> bc_state" where
  "run_batches bt env totalUsers [] st = st"
| "run_batches bt env totalUsers (batch # rest) st =
     (let st1 = run_batch bt env st batch;
          st2 = report_progress env totalUsers st1;
          st3 = (if rest \<noteq> [] then st2\<lparr>trace := trace st2 @ [Delay 1000]\<rparr> else st2)
      in run_batches bt env totalUsers rest st3)"

text \<open>
  \<open>Math.round(ms / 1000)\<close> on an integer number of milliseconds: halves round up.
\<close>

definition round_div_1000 :: "int \<Rightarrow> int" where
  "round_div_1000 ms = (ms + 500) div 1000"

text \<open>An awaited \<open>ctx.reply\<close> and an awaited edit outside any inner \<open>try\<close>.\<close>

definition reply_to :: "broadcast_env \<Rightarrow> reply \<Rightarrow> bc_state \<Rightarrow> string option \<times> bc_state" where
  "reply_to env r st =
     (case reply_io env r of Resolves \<Rightarrow> None | Rejects e \<Rightarrow> Some e,
      st\<lparr>trace := trace st @ [Replied r]\<rparr>)"

definition edit_status :: "broadcast_env \<Rightarrow> status_edit \<Rightarrow> bc_state \<Rightarrow> string option \<times> bc_state" where
  "edit_status env m st =
     (case edit_io env m of Resolves \<Rightarrow> None | Rejects e \<Rightarrow> Some e,
      st\<lparr>trace := trace st @ [EditStatus m]\<rparr>)"

definition logged :: "log_record \<Rightarrow> bc_state \<Rightarrow> bc_state" where
  "logged r st = st\<lparr>trace := trace st @ [Logged r]\<rparr>"

text \<open>
  The \<open>try\<close> block of \<open>execute\<close>, with the step of the batching loop as a parameter
  (the source passes 30). The handler passes \<open>ctx.telegram\<close>, the API client, to
  \<open>sendMessageToUser\<close>. The first component is the exception thrown inside the
  block, if any.
\<close>

definition broadcast_try ::
  "nat \<Rightarrow> broadcast_env \<Rightarrow> tg_context \<Rightarrow> command_argument \<Rightarrow> string option \<times> bc_state" where
  "broadcast_try bs env ctx arg =
     (let st0 = \<lparr>trace = [], successCount = 0, failureCount = 0, processedCount = 0\<rparr>
      in case sender ctx of
           None \<Rightarrow> (Some ''Cannot read properties of undefined (reading language_code)'', st0)
         | Some user \<Rightarrow>
             (case arg of
                NoArgument \<Rightarrow> reply_to env MissingParameter st0
              | Argument broadcastMessage \<Rightarrow>
                  if broadcastMessage = [] then reply_to env EmptyBroadcast st0
                  else
                    (let st1 = logged (AdminCommand ''/broadcast'' (uid user) (or_unknown (username user))
                                         (Some (length broadcastMessage))) st0;
                         users = all_users env;
                         totalUsers = length users
                     in if totalUsers = 0 then reply_to env NoUsersFound st1
                        else
                          (case reply_to env (BroadcastConfirmation broadcastMessage totalUsers) st1 of
                             (Some e, st2) \<Rightarrow> (Some e, st2)
                           | (None, st2) \<Rightarrow>
                               (case reply_to env StartingBroadcast st2 of
                                  (Some e, st3) \<Rightarrow> (Some e, st3)
                                | (None, st3) \<Rightarrow>
                                    (let batches = make_batches bs users 0;
                                         st4 = run_batches ApiClient env totalUsers batches st3;
                                         completionTime = round_div_1000 (endTime env - startTime env)
                                     in case edit_status env
                                               (CompletedMessage (successCount st4) (failureCount st4)
                                                  totalUsers completionTime) st4 of
                                          (Some e, st5) \<Rightarrow> (Some e, st5)
                                        | (None, st5) \<Rightarrow>
                                            (None,
                                             logged (BroadcastCompleted (uid user) (or_unknown (username user))
                                                       totalUsers (successCount st5) (failureCount st5)
                                                       completionTime broadcastMessage) st5)))))))"

text \<open>
  The handler with its \<open>catch\<close> block: the error is logged and the general error text
  is sent; a failure of that reply leaves the handler as a rejection (first component).
\<close>

definition broadcast_with ::
  "nat \<Rightarrow> broadcast_env \<Rightarrow> tg_context \<Rightarrow> command_argument \<Rightarrow> string option \<times> bc_state" where
  "broadcast_with bs env ctx arg =
     (case broadcast_try bs env ctx arg of
        (None, st) \<Rightarrow> (None, st)
      | (Some e, st) \<Rightarrow>
          reply_to env GeneralError
            (logged (AdminCommandError ''/broadcast'' (map_option uid (sender ctx))
                       (case sender ctx of None \<Rightarrow> None | Some u \<Rightarrow> username u) e) st))"

definition broadcast_execute :: "broadcast_env \<Rightarrow> tg_context \<Rightarrow> command_argument \<Rightarrow> string option \<times> bc_state" where
  "broadcast_execute env ctx arg = broadcast_with batchSize env ctx arg"

text \<open>Readings of a trace.\<close>

definition sends :: "bc_event list \<Rightarrow> int list" where
  "sends tr = concat (map (\<lambda>ev. case ev of SendMessage i \<Rightarrow> [i] | _ \<Rightarrow> []) tr)"

definition delivery_failures :: "bc_event list \<Rightarrow> (int \<times> string) list" where
  "delivery_failures tr =
     concat (map (\<lambda>ev. case ev of Logged (BroadcastDeliveryFailed i e) \<Rightarrow> [(i, e)] | _ \<Rightarrow> []) tr)"

definition completion_records :: "bc_event list \<Rightarrow> log_record list" where
  "completion_records tr =
     concat (map (\<lambda>ev. case ev of Logged (BroadcastCompleted a n t s f c m) \<Rightarrow> [BroadcastCompleted a n t s f c m]
                               | _ \<Rightarrow> []) tr)"

text \<open>
  The recipients whose call of \<open>sendMessage\<close> would resolve, and those whose call
  would reject, with the reason.
\<close>

definition resolving :: "(int \<Rightarrow> io_result) \<Rightarrow> tg_user list \<Rightarrow> tg_user list" where
  "resolving send users = filter (\<lambda>u. send (uid u) = Resolves) users"

definition rejecting :: "(int \<Rightarrow> io_result) \<Rightarrow> tg_user list \<Rightarrow> (int \<times> string) list" where
  "rejecting send users =
     concat (map (\<lambda>u. case send (uid u) of Resolves \<Rightarrow> [] | Rejects e \<Rightarrow> [(uid u, e)]) users)"

section \<open>The logger (utils/logger.js)\<close>

text \<open>
  The file data/logs.json as the logger finds it: absent, not parseable, JSON that is
  not an array, or an array of entries. An entry is the logged data with its
  \<open>timestamp\<close> field.
\<close>

datatype 'a log_file = Missing | Unparseable | NotAnArray | LogArray "'a list"

record 'a log_entry =
  log_data :: 'a
  timestamp :: "string option"

record logger =
  maxLogsPerFile :: nat

text \<open>The constructor.\<close>

definition new_logger :: logger where
  "new_logger = \<lparr>maxLogsPerFile = 10000\<rparr>"

text \<open>
  The file-system calls of one \<open>log\<close> call that can fail: \<open>ensureDir\<close>, the write of
  the empty array into a missing file, \<open>readJSON\<close>, and the final \<open>writeJSON\<close>, which
  on failure is taken to leave the file as it was. \<open>clock\<close> is the time string
  \<open>new Date().toISOString()\<close> gives.
\<close>

record fs_io =
  ensure_dir_ok :: bool
  init_write_ok :: bool
  read_ok :: bool
  final_write_ok :: bool
  clock :: string

text \<open>\<open>initializeLogFile\<close>: its own errors are caught and printed.\<close>

definition initializeLogFile :: "fs_io \<Rightarrow> 'a log_file \<Rightarrow> 'a log_file" where
  "initializeLogFile io file =
     (if ensure_dir_ok io \<and> file = Missing \<and> init_write_ok io then LogArray [] else file)"

text \<open>\<open>logs.slice(-n)\<close>: the last \<open>n\<close> entries; \<open>slice(-0)\<close> is \<open>slice(0)\<close>, the whole array.\<close>

definition slice_last :: "nat \<Rightarrow> 'a list \<Rightarrow> 'a list" where
  "slice_last n xs = (if n = 0 then xs else drop (length xs - n) xs)"

text \<open>\<open>if (!logData.timestamp) logData.timestamp = ...\<close>: undefined and '' are falsy.\<close>

definition stamp :: "string \<Rightarrow> 'a log_entry \<Rightarrow> 'a log_entry" where
  "stamp now logData =
     (case timestamp logData of
        None \<Rightarrow> logData\<lparr>timestamp := Some now\<rparr>
      | Some t \<Rightarrow> if t = [] then logData\<lparr>timestamp := Some now\<rparr> else logData)"

text \<open>\<open>Logger.log\<close>: the file after the call.\<close>

definition log :: "logger \<Rightarrow> fs_io \<Rightarrow> 'a log_entry log_file \<Rightarrow> 'a log_entry \<Rightarrow> 'a log_entry log_file" where
  "log this io file logData =
     (let file1 = initializeLogFile io file;
          logs = (if read_ok io then (case file1 of LogArray xs \<Rightarrow> xs | _ \<Rightarrow> []) else []);
          logs1 = logs @ [stamp (clock io) logData];
          logs2 = (if maxLogsPerFile this < length logs1 then slice_last (maxLogsPerFile this) logs1 else logs1)
      in if final_write_ok io then LogArray logs2 else file1)"

text \<open>The stored log sequence: the entries of the file when it is an array.\<close>

definition stored_logs :: "'a log_file \<Rightarrow> 'a list" where
  "stored_logs file = (case file of LogArray xs \<Rightarrow> xs | _ \<Rightarrow> [])"

text \<open>A run of \<open>log\<close> calls, each with its own file-system outcomes.\<close>

definition log_all ::
  "logger \<Rightarrow> 'a log_entry log_file \<Rightarrow> (fs_io \<times> 'a log_entry) list \<Rightarrow> 'a log_entry log_file" where
  "log_all this file calls = foldl (\<lambda>f (io, d). log this io f d) file calls"

section \<open>Readings of a broadcast trace\<close>

text \<open>
  The rounds of a trace: the recipient ids of the \<open>sendMessage\<close> calls, grouped by the
  progress edits that follow them. The second component holds the calls made after the
  last progress edit.
\<close>

fun round_step :: "int list list \<times> int list \<Rightarrow> bc_event \<Rightarrow> int list list \<times> int list" where
  "round_step (fin, cur) (SendMessage i) = (fin, cur @ [i])"
| "round_step (fin, cur) (EditStatus (ProgressMessage s f p n)) = (fin @ [cur], [])"
| "round_step (fin, cur) ev = (fin, cur)"

definition rounds :: "bc_event list \<Rightarrow> int list list \<times> int list" where
  "rounds tr = foldl round_step ([], []) tr"

text \<open>
  The state in which the handler enters the batching loop (the command logged, the two
  replies sent), and what it appends after the loop: the completion edit, followed by
  the completion record when the edit resolves and by the error record and the error
  reply when it rejects.
\<close>

definition started :: "tg_user \<Rightarrow> string \<Rightarrow> nat \<Rightarrow> bc_state" where
  "started admin m n =
     \<lparr>trace = [Logged (AdminCommand ''/broadcast'' (uid admin) (or_unknown (username admin)) (Some (length m))),
               Replied (BroadcastConfirmation m n), Replied StartingBroadcast],
      successCount = 0, failureCount = 0, processedCount = 0\<rparr>"

definition closing :: "broadcast_env \<Rightarrow> tg_user \<Rightarrow> string \<Rightarrow> bc_state \<Rightarrow> bc_event list" where
  "closing env admin m st =
     (let completionTime = round_div_1000 (endTime env - startTime env);
          cm = CompletedMessage (successCount st) (failureCount st) (length (all_users env)) completionTime
      in EditStatus cm #
         (case edit_io env cm of
            Resolves \<Rightarrow>
              [Logged (BroadcastCompleted (uid admin) (or_unknown (username admin)) (length (all_users env))
                         (successCount st) (failureCount st) completionTime m)]
          | Rejects e \<Rightarrow>
              [Logged (AdminCommandError ''/broadcast'' (Some (uid admin)) (username admin) e),
               Replied GeneralError]))"

section \<open>Invariants of the request map\<close>

text \<open>
  For an exempt id: the map never holds an entry for it, and every update it sent was
  passed on as exempt.
\<close>

definition exempt_inv :: "int \<Rightarrow> (int \<rightharpoonup> int list) \<times> fc_history \<Rightarrow> bool" where
  "exempt_inv x s = (fst s x = None \<and> (\<forall>(who, t, d) \<in> set (snd s). who = Some x \<longrightarrow> d = Exempt))"

text \<open>The clock readings of the updates of user \<open>x\<close> that the rate check itself let pass.\<close>

definition allowed_times :: "int \<Rightarrow> fc_history \<Rightarrow> int list" where
  "allowed_times x hist = map (\<lambda>(who, t, d). t) (filter (\<lambda>(who, t, d). who = Some x \<and> d = Allowed) hist)"

text \<open>
  The invariant behind the sliding window, at clock reading \<open>c\<close>, for the allowed
  readings \<open>A\<close> of a user and the array \<open>S\<close> stored for that user: no allowed reading
  is later than \<open>c\<close>; seen from \<open>c\<close> or later, the stored array and the allowed readings
  have the same entries inside the window; and no trailing window holds more than
  \<open>maxRequests\<close> allowed readings.
\<close>

definition window_ok :: "config \<Rightarrow> int \<Rightarrow> int list \<Rightarrow> int list \<Rightarrow> bool" where
  "window_ok cfg c A S =
     ((\<forall>t \<in> set A. t \<le> c)
      \<and> (\<forall>c'. c \<le> c' \<longrightarrow> within_window cfg c' A = within_window cfg c' S)
      \<and> (\<forall>T. int (length (filter (\<lambda>t. t \<le> T \<and> T - t < timeWindow cfg) A)) \<le> maxRequests cfg))"

definition window_inv :: "config \<Rightarrow> int \<Rightarrow> int \<Rightarrow> (int \<rightharpoonup> int list) \<times> fc_history \<Rightarrow> bool" where
  "window_inv cfg x c s = window_ok cfg c (allowed_times x (snd s)) (requests_of (fst s) x)"

section \<open>Concrete inputs\<close>

text \<open>
  A configuration with owner 1, admins 2 and 3, one request allowed per second; an
  update sent by a given user; file-system and reply outcomes that all succeed.
\<close>

definition cfg1 :: config where
  "cfg1 = \<lparr>OWNER_ID = 1, ADMINS = AdminsList [2, 3], MAX_REQUESTS = Some 1, TIME_WINDOW = Some 1000\<rparr>"

definition ctx_of :: "int \<Rightarrow> tg_context" where
  "ctx_of i = \<lparr>sender = Some \<lparr>uid = i, username = None\<rparr>, message_text = Some ''/shutdown''\<rparr>"

definition all_resolve :: shutdown_io where
  "all_resolve = \<lparr>denial_reply = Resolves, confirmation_reply = Resolves, final_reply = Resolves,
                  error_reply = Resolves\<rparr>"

definition ok_io :: fs_io where
  "ok_io = \<lparr>ensure_dir_ok = True, init_write_ok = True, read_ok = True, final_write_ok = True,
            clock = ''2024-01-01T00:00:00.000Z''\<rparr>"

definition entry :: "nat \<Rightarrow> nat log_entry" where
  "entry n = \<lparr>log_data = n, timestamp = Some ''t''\<rparr>"

text \<open>The same configuration with two requests per second.\<close>

definition cfg2 :: config where
  "cfg2 = \<lparr>OWNER_ID = 1, ADMINS = AdminsList [2, 3], MAX_REQUESTS = Some 2, TIME_WINDOW = Some 1000\<rparr>"

text \<open>
  Three registered users, of whom user 2 has blocked the bot; and a single user with a
  status message that can no longer be edited.
\<close>

definition user :: "int \<Rightarrow> tg_user" where
  "user i = \<lparr>uid = i, username = None\<rparr>"

definition env3 :: broadcast_env where
  "env3 = \<lparr>all_users = [user 1, user 2, user 3],
            send_io = (\<lambda>i. if i = 2 then Rejects ''Forbidden: bot was blocked by the user'' else Resolves),
            settle_time = (\<lambda>i. if i = 1 then 30 else if i = 2 then 20 else 10),
            reply_io = (\<lambda>r. Resolves), edit_io = (\<lambda>m. Resolves), startTime = 0, endTime = 1400\<rparr>"

definition env_expired :: broadcast_env where
  "env_expired = \<lparr>all_users = [user 7], send_io = (\<lambda>i. Resolves), settle_time = (\<lambda>i. 10),
                   reply_io = (\<lambda>r. Resolves),
                   edit_io = (\<lambda>m. Rejects ''Bad Request: message to edit not found''),
                   startTime = 0, endTime = 1400\<rparr>"


text \<open>A limit of two requests in ten seconds.\<close>

definition cfg3 :: config where
  "cfg3 = \<lparr>OWNER_ID = 1, ADMINS = AdminsList [2, 3], MAX_REQUESTS = Some 2, TIME_WINDOW = Some 10000\<rparr>"

section \<open>Flood control: exempt identities\<close>

lemma skip_flood_control_exempt:
  "userId = OWNER_ID cfg \<or> (\<exists>ids. ADMINS cfg = AdminsList ids \<and> userId \<in> set ids)
   \<Longrightarrow> skip_flood_control cfg userId = Inr True"
  by (auto simp: skip_flood_control_def)

lemma floodControl_exempt:
  assumes "sender ctx = Some u" and "skip_flood_control cfg (uid u) = Inr True"
  shows "floodControl cfg ctx now cooldown_io reqs =
           \<lparr>decision = Exempt, fc_logs = [], fc_replies = [], userRequests = reqs\<rparr>"
  using assms by (simp add: floodControl_def floodControl_try_def)

lemma floodControl_frame:
  "map_option uid (sender ctx) \<noteq> Some x \<Longrightarrow> userRequests (floodControl cfg ctx now cooldown_io reqs) x = reqs x"
  by (auto simp: floodControl_def floodControl_try_def Let_def split: option.splits sum.splits bool.splits io_result.splits)

lemma floodControl_exempt_decision:
  "skip_flood_control cfg x = Inr True \<Longrightarrow> map_option uid (sender ctx) = Some x
   \<Longrightarrow> floodControl cfg ctx now cooldown_io reqs =
           \<lparr>decision = Exempt, fc_logs = [], fc_replies = [], userRequests = reqs\<rparr>"
  by (auto simp: floodControl_exempt)

lemma cleanup_None: "reqs x = None \<Longrightarrow> cleanup cfg now reqs x = None"
  by (simp add: cleanup_def)

lemma fc_step_exempt:
  assumes "skip_flood_control cfg x = Inr True" "exempt_inv x s"
  shows "exempt_inv x (fc_step cfg s e)"
proof (cases s)
  case (Pair reqs hist)
  show ?thesis
  proof (cases e)
    case (Update ctx now cooldown_io)
    show ?thesis
    proof (cases "map_option uid (sender ctx) = Some x")
      case True
      then show ?thesis using assms Pair Update
        by (simp add: exempt_inv_def floodControl_exempt_decision Let_def)
    next
      case False
      then have "userRequests (floodControl cfg ctx now cooldown_io reqs) x = reqs x"
        by (rule floodControl_frame)
      then show ?thesis using False assms Pair Update
        by (auto simp: exempt_inv_def Let_def)
    qed
  next
    case (Sweep now)
    then show ?thesis using assms Pair by (simp add: exempt_inv_def cleanup_None)
  qed
qed

lemma foldl_exempt:
  "skip_flood_control cfg x = Inr True \<Longrightarrow> exempt_inv x s \<Longrightarrow> exempt_inv x (foldl (fc_step cfg) s evs)"
  by (induction evs arbitrary: s) (simp_all add: fc_step_exempt)

lemma fc_run_exempt: "skip_flood_control cfg x = Inr True \<Longrightarrow> exempt_inv x (fc_run cfg evs)"
  unfolding fc_run_def by (rule foldl_exempt) (simp_all add: exempt_inv_def)

text \<open>
  Claim C6. When the caller's id is the configured owner id or a member of the
  configured admin ids, the middleware calls \<open>next()\<close> and does nothing else: no log
  record, no reply, the request map unchanged. Over any run of updates and clean-ups
  from the empty map, such an id never gets an entry in the map, and none of its
  updates, in any window, ends otherwise than passed on as exempt.
\<close>

theorem exempt_never_limited:
  assumes "sender ctx = Some u"
    and "uid u = OWNER_ID cfg \<or> (\<exists>ids. ADMINS cfg = AdminsList ids \<and> uid u \<in> set ids)"
  shows "floodControl cfg ctx now cooldown_io reqs =
           \<lparr>decision = Exempt, fc_logs = [], fc_replies = [], userRequests = reqs\<rparr>
         \<and> next_called (decision (floodControl cfg ctx now cooldown_io reqs))
         \<and> fst (fc_run cfg evs) (uid u) = None
         \<and> in_window (\<lambda>d. d \<noteq> Exempt) (uid u) w T (snd (fc_run cfg evs)) = 0"
proof -
  have ex: "skip_flood_control cfg (uid u) = Inr True"
    using assms(2) by (rule skip_flood_control_exempt)
  have fc: "floodControl cfg ctx now cooldown_io reqs =
           \<lparr>decision = Exempt, fc_logs = [], fc_replies = [], userRequests = reqs\<rparr>"
    using assms(1) ex by (rule floodControl_exempt)
  have inv: "exempt_inv (uid u) (fc_run cfg evs)" using ex by (rule fc_run_exempt)
  have "filter (\<lambda>(who, t, d). who = Some (uid u) \<and> d \<noteq> Exempt \<and> t \<le> T \<and> T - t < w) (snd (fc_run cfg evs)) = []"
    using inv by (auto simp: exempt_inv_def filter_empty_conv)
  then have win: "in_window (\<lambda>d. d \<noteq> Exempt) (uid u) w T (snd (fc_run cfg evs)) = 0"
    by (simp add: in_window_def)
  show ?thesis using fc inv win by (simp add: next_called_def exempt_inv_def)
qed

theorem exempt_never_limited_witness:
  "floodControl cfg1 (ctx_of 2) 5 Resolves [2 \<mapsto> [4]] =
           \<lparr>decision = Exempt, fc_logs = [], fc_replies = [], userRequests = [2 \<mapsto> [4]]\<rparr>
   \<and> fst (fc_run cfg1 [Update (ctx_of 2) 0 Resolves, Update (ctx_of 2) 0 Resolves, Update (ctx_of 2) 1 Resolves]) 2 = None
   \<and> in_window (\<lambda>d. d \<noteq> Exempt) 2 1000 1
        (snd (fc_run cfg1 [Update (ctx_of 2) 0 Resolves, Update (ctx_of 2) 0 Resolves, Update (ctx_of 2) 1 Resolves])) = 0"
  using exempt_never_limited [of "ctx_of 2" "\<lparr>uid = 2, username = None\<rparr>" cfg1 5 Resolves "[2 \<mapsto> [4]]"
      "[Update (ctx_of 2) 0 Resolves, Update (ctx_of 2) 0 Resolves, Update (ctx_of 2) 1 Resolves]" 1000 1]
  by (simp add: cfg1_def ctx_of_def)

section \<open>Flood control: errors inside the middleware\<close>

lemma skip_flood_control_throws:
  "skip_flood_control cfg x = Inl m \<longleftrightarrow>
     x \<noteq> OWNER_ID cfg \<and> ADMINS cfg = AdminsMalformed \<and> m = ''config.ADMINS.includes is not a function''"
  by (auto simp: skip_flood_control_def split: admins_cfg.splits)

lemma requests_of_created:
  "requests_of (if reqs x = None then reqs(x \<mapsto> []) else reqs) x = requests_of reqs x"
  by (simp add: requests_of_def)

lemma floodControl_try_throws_iff:
  "fst (floodControl_try cfg ctx now cooldown_io reqs) = Inl e \<longleftrightarrow>
     (sender ctx = None \<and> e = ''Cannot read properties of undefined (reading id)'')
   \<or> (\<exists>u. sender ctx = Some u \<and> uid u \<noteq> OWNER_ID cfg \<and> ADMINS cfg = AdminsMalformed
          \<and> e = ''config.ADMINS.includes is not a function'')
   \<or> (\<exists>u. sender ctx = Some u \<and> skip_flood_control cfg (uid u) = Inr False
          \<and> maxRequests cfg \<le> int (length (within_window cfg now (requests_of reqs (uid u))))
          \<and> cooldown_io = Rejects e)"
proof (cases "sender ctx")
  case None
  then show ?thesis by (auto simp: floodControl_try_def)
next
  case (Some u)
  show ?thesis
  proof (cases "skip_flood_control cfg (uid u)")
    case (Inl m)
    then have "fst (floodControl_try cfg ctx now cooldown_io reqs) = Inl m"
      using Some by (simp add: floodControl_try_def)
    then show ?thesis using Some Inl skip_flood_control_throws [of cfg "uid u" m] by auto
  next
    case (Inr b)
    have nothrow: "ADMINS cfg = AdminsMalformed \<Longrightarrow> uid u = OWNER_ID cfg"
      using Inr skip_flood_control_throws [of cfg "uid u"] by (metis Inl_Inr_False)
    show ?thesis
    proof (cases b)
      case True
      then have "fst (floodControl_try cfg ctx now cooldown_io reqs) = Inr Exempt"
        using Some Inr by (simp add: floodControl_try_def)
      then show ?thesis using Some Inr True nothrow by auto
    next
      case False
      show ?thesis
      proof (cases "maxRequests cfg \<le> int (length (within_window cfg now (requests_of reqs (uid u))))")
        case True
        then have "fst (floodControl_try cfg ctx now cooldown_io reqs) =
            (case cooldown_io of Resolves \<Rightarrow> Inr (Rejected (remainingTime (timeWindow cfg) now
                    (within_window cfg now (requests_of reqs (uid u)))))
             | Rejects e' \<Rightarrow> Inl e')"
          using Some Inr False
          by (simp add: floodControl_try_def Let_def requests_of_created split: io_result.splits)
        then show ?thesis using Some Inr False True nothrow
          by (cases cooldown_io) auto
      next
        case nf: False
        then have "fst (floodControl_try cfg ctx now cooldown_io reqs) = Inr Allowed"
          using Some Inr False
          by (simp add: floodControl_try_def Let_def requests_of_created)
        then show ?thesis using Some Inr False nf nothrow by auto
      qed
    qed
  qed
qed

text \<open>
  Claim C7. Whenever the \<open>try\<close> block of the middleware throws (the update has no
  sender, the admin list of the configuration is malformed and the caller is not the
  owner, or the cooldown reply to a caller over the limit is rejected; by
  \<open>floodControl_try_throws_iff\<close> these are all the ways), the middleware fails open:
  it calls \<open>next()\<close>, and the last record it logs is the \<open>middleware_error\<close> record
  carrying the error message.
\<close>

theorem floodControl_fails_open:
  assumes "(sender ctx = None \<and> e = ''Cannot read properties of undefined (reading id)'')
   \<or> (\<exists>u. sender ctx = Some u \<and> uid u \<noteq> OWNER_ID cfg \<and> ADMINS cfg = AdminsMalformed
          \<and> e = ''config.ADMINS.includes is not a function'')
   \<or> (\<exists>u. sender ctx = Some u \<and> skip_flood_control cfg (uid u) = Inr False
          \<and> maxRequests cfg \<le> int (length (within_window cfg now (requests_of reqs (uid u))))
          \<and> cooldown_io = Rejects e)"
  shows "fst (floodControl_try cfg ctx now cooldown_io reqs) = Inl e
       \<and> decision (floodControl cfg ctx now cooldown_io reqs) = FailedOpen e
       \<and> next_called (decision (floodControl cfg ctx now cooldown_io reqs))
       \<and> last (fc_logs (floodControl cfg ctx now cooldown_io reqs)) =
            MiddlewareError ''floodControl'' (map_option uid (sender ctx))
              (case sender ctx of None \<Rightarrow> None | Some u \<Rightarrow> username u) e"
proof -
  from assms have thrown: "fst (floodControl_try cfg ctx now cooldown_io reqs) = Inl e"
    by (simp only: floodControl_try_throws_iff)
  then show ?thesis
    by (cases "floodControl_try cfg ctx now cooldown_io reqs")
       (simp add: floodControl_def next_called_def)
qed

theorem floodControl_fails_open_witness:
  "decision (floodControl cfg1 (ctx_of 7) 5 (Rejects ''429 Too Many Requests'') [7 \<mapsto> [4]])
     = FailedOpen ''429 Too Many Requests''
   \<and> next_called (decision (floodControl cfg1 (ctx_of 7) 5 (Rejects ''429 Too Many Requests'') [7 \<mapsto> [4]]))
   \<and> decision (floodControl cfg1 \<lparr>sender = None, message_text = None\<rparr> 5 Resolves Map.empty)
     = FailedOpen ''Cannot read properties of undefined (reading id)''"
proof -
  have a: "(sender (ctx_of 7) = None \<and> ''429 Too Many Requests'' = ''Cannot read properties of undefined (reading id)'')
   \<or> (\<exists>u. sender (ctx_of 7) = Some u \<and> uid u \<noteq> OWNER_ID cfg1 \<and> ADMINS cfg1 = AdminsMalformed
          \<and> ''429 Too Many Requests'' = ''config.ADMINS.includes is not a function'')
   \<or> (\<exists>u. sender (ctx_of 7) = Some u \<and> skip_flood_control cfg1 (uid u) = Inr False
          \<and> maxRequests cfg1 \<le> int (length (within_window cfg1 5 (requests_of [7 \<mapsto> [4]] (uid u))))
          \<and> Rejects ''429 Too Many Requests'' = Rejects ''429 Too Many Requests'')"
    by (simp add: cfg1_def ctx_of_def skip_flood_control_def requests_of_def
        within_window_def timeWindow_def maxRequests_def)
  have b: "(sender \<lparr>sender = None, message_text = None\<rparr> = None
        \<and> ''Cannot read properties of undefined (reading id)'' = ''Cannot read properties of undefined (reading id)'')
   \<or> (\<exists>u. sender \<lparr>sender = None, message_text = None\<rparr> = Some u \<and> uid u \<noteq> OWNER_ID cfg1 \<and> ADMINS cfg1 = AdminsMalformed
          \<and> ''Cannot read properties of undefined (reading id)'' = ''config.ADMINS.includes is not a function'')
   \<or> (\<exists>u. sender \<lparr>sender = None, message_text = None\<rparr> = Some u \<and> skip_flood_control cfg1 (uid u) = Inr False
          \<and> maxRequests cfg1 \<le> int (length (within_window cfg1 5 (requests_of Map.empty (uid u))))
          \<and> Resolves = Rejects ''Cannot read properties of undefined (reading id)'')"
    by simp
  show ?thesis
    using floodControl_fails_open [OF a] floodControl_fails_open [OF b] by (simp add: next_called_def)
qed

section \<open>Flood control: the cooldown reported on rejection\<close>

lemma math_min_Min: "xs \<noteq> [] \<Longrightarrow> math_min xs = Finite (Min (set xs))"
proof (induction xs)
  case Nil then show ?case by simp
next
  case (Cons x xs)
  show ?case
  proof (cases "xs = []")
    case True then show ?thesis by simp
  next
    case False
    with Cons show ?thesis by (simp add: min_def Min_insert2 split: if_splits) 
  qed
qed

lemma ceil_div_1000_ceiling: "ceil_div_1000 a = \<lceil>real_of_int a / 1000\<rceil>"
proof -
  have "\<lceil>real_of_int a / real_of_int 1000\<rceil> = - (- a div 1000)"
    by (rule ceiling_divide_eq_div)
  then show ?thesis by (simp add: ceil_div_1000_def)
qed

text \<open>
  Claim C5. Whenever the middleware rejects a caller (with a positive request limit),
  the caller has a stored array; the stored timestamps \<open>t\<close> with
  \<open>now - t < timeWindow\<close> number at least \<open>maxRequests\<close>; the cooldown it reports, in
  the reply and in the log record, is \<open>ceil((timeWindow - (now - oldest)) / 1000)\<close>
  with \<open>oldest\<close> the least of exactly these timestamps; and the request map is what
  it was before the call, so the rejected attempt is not recorded.
\<close>

theorem rejection_reports_cooldown:
  assumes "sender ctx = Some u" and "0 < maxRequests cfg"
    and "decision (floodControl cfg ctx now cooldown_io reqs) = Rejected r"
  shows "\<exists>stored. reqs (uid u) = Some stored
       \<and> maxRequests cfg \<le> int (length [t \<leftarrow> stored. now - t < timeWindow cfg])
       \<and> {t \<in> set stored. now - t < timeWindow cfg} \<noteq> {}
       \<and> r = Finite \<lceil>real_of_int (timeWindow cfg
                  - (now - Min {t \<in> set stored. now - t < timeWindow cfg})) / 1000\<rceil>
       \<and> fc_replies (floodControl cfg ctx now cooldown_io reqs) = [SlowDown r (maxRequests cfg) (timeWindow cfg)]
       \<and> fc_logs (floodControl cfg ctx now cooldown_io reqs) =
            [FloodControlTriggered (uid u) (or_unknown (username u))
               (length [t \<leftarrow> stored. now - t < timeWindow cfg]) (maxRequests cfg) r]
       \<and> userRequests (floodControl cfg ctx now cooldown_io reqs) = reqs"
proof -
  let ?valid = "within_window cfg now (requests_of reqs (uid u))"
  from assms(1,3) have skip: "skip_flood_control cfg (uid u) = Inr False"
    by (auto simp: floodControl_def floodControl_try_def Let_def
        split: sum.splits bool.splits if_splits io_result.splits)
  from assms(1,3) skip have full: "maxRequests cfg \<le> int (length ?valid)"
    by (auto simp: floodControl_def floodControl_try_def Let_def requests_of_created
        split: if_splits io_result.splits)
  with assms(2) have ne: "?valid \<noteq> []" by auto
  then obtain stored where stored: "reqs (uid u) = Some stored"
    by (auto simp: requests_of_def within_window_def split: option.splits)
  then have v: "?valid = [t \<leftarrow> stored. now - t < timeWindow cfg]"
    by (simp add: requests_of_def within_window_def)
  have sv: "set ?valid = {t \<in> set stored. now - t < timeWindow cfg}"
    by (simp add: v)
  have rem: "remainingTime (timeWindow cfg) now ?valid =
      Finite \<lceil>real_of_int (timeWindow cfg - (now - Min (set ?valid))) / 1000\<rceil>"
    using ne by (simp add: remainingTime_def math_min_Min ceil_div_1000_ceiling)
  from assms(1,3) skip full stored have
      "r = remainingTime (timeWindow cfg) now ?valid
       \<and> fc_replies (floodControl cfg ctx now cooldown_io reqs) = [SlowDown r (maxRequests cfg) (timeWindow cfg)]
       \<and> fc_logs (floodControl cfg ctx now cooldown_io reqs) =
            [FloodControlTriggered (uid u) (or_unknown (username u)) (length ?valid) (maxRequests cfg) r]
       \<and> userRequests (floodControl cfg ctx now cooldown_io reqs) = reqs"
    by (auto simp: floodControl_def floodControl_try_def Let_def
        split: if_splits io_result.splits)
  moreover have "{t \<in> set stored. now - t < timeWindow cfg} \<noteq> {}"
  proof -
    have "set ?valid \<noteq> {}" using ne by simp
    then show ?thesis unfolding sv .
  qed
  ultimately show ?thesis
    using full rem stored unfolding sv unfolding v by blast
qed

theorem rejection_reports_cooldown_witness:
  "decision (floodControl cfg3 (ctx_of 7) 15000 Resolves [7 \<mapsto> [1000, 9000, 7000]]) = Rejected (Finite 2)
   \<and> [t \<leftarrow> [1000, 9000, 7000]. (15000::int) - t < timeWindow cfg3] = [9000, 7000]
   \<and> Min {t \<in> set [1000, 9000, 7000]. (15000::int) - t < timeWindow cfg3} = 7000
   \<and> Finite 2 = Finite \<lceil>real_of_int (timeWindow cfg3
                  - (15000 - Min {t \<in> set [1000, 9000, 7000]. (15000::int) - t < timeWindow cfg3})) / 1000\<rceil>
   \<and> fc_logs (floodControl cfg3 (ctx_of 7) 15000 Resolves [7 \<mapsto> [1000, 9000, 7000]])
       = [FloodControlTriggered 7 ''Unknown'' 2 2 (Finite 2)]
   \<and> userRequests (floodControl cfg3 (ctx_of 7) 15000 Resolves [7 \<mapsto> [1000, 9000, 7000]])
       = [7 \<mapsto> [1000, 9000, 7000]]"
proof -
  have d: "decision (floodControl cfg3 (ctx_of 7) 15000 Resolves [7 \<mapsto> [1000, 9000, 7000]]) = Rejected (Finite 2)"
    by (simp add: floodControl_def floodControl_try_def cfg3_def ctx_of_def skip_flood_control_def
        requests_of_def within_window_def timeWindow_def maxRequests_def remainingTime_def
        ceil_div_1000_def Let_def)
  have s: "sender (ctx_of 7) = Some \<lparr>uid = 7, username = None\<rparr>" by (simp add: ctx_of_def)
  have m: "0 < maxRequests cfg3" and mx: "maxRequests cfg3 = 2"
    by (simp_all add: maxRequests_def cfg3_def)
  have w: "timeWindow cfg3 = 10000" by (simp add: timeWindow_def cfg3_def)
  have f: "[t \<leftarrow> [1000, 9000, 7000]. (15000::int) - t < 10000] = [9000, 7000]" by simp
  have st: "{t \<in> set [1000, 9000, 7000]. (15000::int) - t < 10000} = {9000, 7000}" by auto
  have st': "{t::int. (t = 1000 \<or> t = 9000 \<or> t = 7000) \<and> 5000 < t} = {9000, 7000}" by auto
  show ?thesis
    using rejection_reports_cooldown [OF s m d] d
    by (simp add: w f st st' mx or_unknown_def)
qed

section \<open>Flood control: the sliding window\<close>

lemma within_within:
  "c \<le> c' \<Longrightarrow> within_window cfg c' (within_window cfg c xs) = within_window cfg c' xs"
  unfolding within_window_def filter_filter
  by (rule filter_cong) auto

lemma within_append:
  "within_window cfg c (xs @ ys) = within_window cfg c xs @ within_window cfg c ys"
  by (simp add: within_window_def)

lemma ok_D1: "window_ok cfg c A S \<Longrightarrow> t \<in> set A \<Longrightarrow> t \<le> c"
  by (simp add: window_ok_def)

lemma ok_D2: "window_ok cfg c A S \<Longrightarrow> c \<le> c' \<Longrightarrow> within_window cfg c' A = within_window cfg c' S"
  by (simp add: window_ok_def)

lemma ok_D3:
  "window_ok cfg c A S \<Longrightarrow> int (length (filter (\<lambda>t. t \<le> T \<and> T - t < timeWindow cfg) A)) \<le> maxRequests cfg"
  by (simp add: window_ok_def)

lemma ok_I:
  assumes "\<And>t. t \<in> set A \<Longrightarrow> t \<le> c"
    and "\<And>c'. c \<le> c' \<Longrightarrow> within_window cfg c' A = within_window cfg c' S"
    and "\<And>T. int (length (filter (\<lambda>t. t \<le> T \<and> T - t < timeWindow cfg) A)) \<le> maxRequests cfg"
  shows "window_ok cfg c A S"
  using assms by (simp add: window_ok_def)

lemma ok_keep:
  assumes ok: "window_ok cfg c A S" and le: "c \<le> n"
  shows "window_ok cfg n A S"
proof (rule ok_I)
  fix t assume "t \<in> set A"
  then have "t \<le> c" using ok by (rule ok_D1 [rotated])
  then show "t \<le> n" using le by simp
next
  fix c' assume "n \<le> c'"
  then have "c \<le> c'" using le by simp
  then show "within_window cfg c' A = within_window cfg c' S" using ok by (rule ok_D2 [rotated])
next
  fix T show "int (length (filter (\<lambda>t. t \<le> T \<and> T - t < timeWindow cfg) A)) \<le> maxRequests cfg"
    using ok by (rule ok_D3)
qed

lemma ok_prune:
  assumes ok: "window_ok cfg c A S" and le: "c \<le> n"
  shows "window_ok cfg n A (within_window cfg n S)"
proof (rule ok_I)
  fix t assume "t \<in> set A"
  then have "t \<le> c" using ok by (rule ok_D1 [rotated])
  then show "t \<le> n" using le by simp
next
  fix c' assume n: "n \<le> c'"
  then have "c \<le> c'" using le by simp
  then have "within_window cfg c' A = within_window cfg c' S" using ok by (rule ok_D2 [rotated])
  then show "within_window cfg c' A = within_window cfg c' (within_window cfg n S)"
    using n by (simp add: within_within)
next
  fix T show "int (length (filter (\<lambda>t. t \<le> T \<and> T - t < timeWindow cfg) A)) \<le> maxRequests cfg"
    using ok by (rule ok_D3)
qed

lemma ok_allow:
  assumes ok: "window_ok cfg c A S" and le: "c \<le> n" and w: "0 < timeWindow cfg"
    and room: "int (length (within_window cfg n S)) < maxRequests cfg"
  shows "window_ok cfg n (A @ [n]) (within_window cfg n S @ [n])"
proof (rule ok_I)
  fix t assume "t \<in> set (A @ [n])"
  then have "t \<in> set A \<or> t = n" by auto
  then show "t \<le> n" using ok_D1 [OF ok] le by force
next
  fix c' assume n: "n \<le> c'"
  then have "c \<le> c'" using le by simp
  then have "within_window cfg c' A = within_window cfg c' S" using ok by (rule ok_D2 [rotated])
  then show "within_window cfg c' (A @ [n]) = within_window cfg c' (within_window cfg n S @ [n])"
    using n by (simp add: within_append within_within)
next
  fix T
  have same: "within_window cfg n A = within_window cfg n S"
    using ok le by (rule ok_D2)
  show "int (length (filter (\<lambda>t. t \<le> T \<and> T - t < timeWindow cfg) (A @ [n]))) \<le> maxRequests cfg"
  proof (cases "n \<le> T \<and> T - n < timeWindow cfg")
    case True
    have "filter (\<lambda>t. t \<le> T \<and> T - t < timeWindow cfg) (within_window cfg n A)
            = filter (\<lambda>t. t \<le> T \<and> T - t < timeWindow cfg) A"
      unfolding within_window_def filter_filter
      using True by (intro filter_cong) auto
    then have "length (filter (\<lambda>t. t \<le> T \<and> T - t < timeWindow cfg) A) \<le> length (within_window cfg n A)"
      by (metis length_filter_le)
    then have "int (length (filter (\<lambda>t. t \<le> T \<and> T - t < timeWindow cfg) A)) < maxRequests cfg"
      using room same by simp
    then show ?thesis using True by simp
  next
    case False
    then have "filter (\<lambda>t. t \<le> T \<and> T - t < timeWindow cfg) (A @ [n])
                = filter (\<lambda>t. t \<le> T \<and> T - t < timeWindow cfg) A"
      by auto
    then show ?thesis using ok_D3 [OF ok, of T] by simp
  qed
qed

lemma allowed_times_snoc:
  "allowed_times x (hist @ [(who, t, d)]) =
     allowed_times x hist @ (if who = Some x \<and> d = Allowed then [t] else [])"
  by (simp add: allowed_times_def)

lemma cleanup_requests:
  "requests_of (cleanup cfg now reqs) x = within_window cfg now (requests_of reqs x)"
  by (cases "reqs x") (simp_all add: cleanup_def requests_of_def Let_def within_window_def)

lemma floodControl_self:
  assumes "sender ctx = Some u"
  shows "(decision (floodControl cfg ctx now cooldown_io reqs) = Allowed \<longrightarrow>
            requests_of (userRequests (floodControl cfg ctx now cooldown_io reqs)) (uid u)
              = within_window cfg now (requests_of reqs (uid u)) @ [now]
            \<and> int (length (within_window cfg now (requests_of reqs (uid u)))) < maxRequests cfg)
       \<and> (decision (floodControl cfg ctx now cooldown_io reqs) \<noteq> Allowed \<longrightarrow>
            requests_of (userRequests (floodControl cfg ctx now cooldown_io reqs)) (uid u)
              = requests_of reqs (uid u))"
proof (cases "skip_flood_control cfg (uid u)")
  case (Inl e)
  then show ?thesis using assms by (simp add: floodControl_def floodControl_try_def)
next
  case (Inr b)
  show ?thesis
  proof (cases b)
    case True
    then show ?thesis using assms Inr by (simp add: floodControl_def floodControl_try_def)
  next
    case False
    show ?thesis
    proof (cases "maxRequests cfg \<le> int (length (within_window cfg now (requests_of reqs (uid u))))")
      case True
      then show ?thesis using assms Inr False
        by (cases cooldown_io)
           (simp_all add: floodControl_def floodControl_try_def Let_def requests_of_created)
    next
      case nf: False
      then show ?thesis using assms Inr False
        by (simp add: floodControl_def floodControl_try_def Let_def requests_of_created)
           (simp add: requests_of_def)
    qed
  qed
qed

lemma fc_step_window_inv:
  assumes inv: "window_inv cfg x c s" and le: "c \<le> event_time e" and w: "0 < timeWindow cfg"
  shows "window_inv cfg x (event_time e) (fc_step cfg s e)"
proof (cases s)
  case (Pair reqs hist)
  from inv Pair have ok: "window_ok cfg c (allowed_times x hist) (requests_of reqs x)"
    by (simp add: window_inv_def)
  show ?thesis
  proof (cases e)
    case (Sweep now)
    then show ?thesis using Pair ok_prune [OF ok, of now] le
      by (simp add: window_inv_def cleanup_requests)
  next
    case (Update ctx now cooldown_io)
    define r where "r = floodControl cfg ctx now cooldown_io reqs"
    define who where "who = map_option uid (sender ctx)"
    have step: "fc_step cfg s (Update ctx now cooldown_io) = (userRequests r, hist @ [(who, now, decision r)])"
      using Pair by (simp add: Let_def r_def who_def)
    have le': "c \<le> now" using le Update by simp
    have goal: "window_ok cfg now (allowed_times x (hist @ [(who, now, decision r)]))
                  (requests_of (userRequests r) x)"
    proof (cases "who = Some x")
      case False
      then have "userRequests r x = reqs x"
        unfolding r_def who_def by (rule floodControl_frame)
      then have "requests_of (userRequests r) x = requests_of reqs x"
        by (simp add: requests_of_def)
      then show ?thesis using False ok_keep [OF ok le']
        by (simp add: allowed_times_snoc)
    next
      case True
      then obtain u where u: "sender ctx = Some u" "uid u = x" by (auto simp: who_def)
      show ?thesis
      proof (cases "decision r = Allowed")
        case al: True
        then have "requests_of (userRequests r) x = within_window cfg now (requests_of reqs x) @ [now]"
          and "int (length (within_window cfg now (requests_of reqs x))) < maxRequests cfg"
          using floodControl_self [OF u(1), of cfg now cooldown_io reqs] u(2) by (auto simp: r_def)
        then show ?thesis using True al ok_allow [OF ok le' w]
          by (simp add: allowed_times_snoc)
      next
        case na: False
        then have "requests_of (userRequests r) x = requests_of reqs x"
          using floodControl_self [OF u(1), of cfg now cooldown_io reqs] u(2) by (auto simp: r_def)
        then show ?thesis using na ok_keep [OF ok le']
          by (simp add: allowed_times_snoc)
      qed
    qed
    show ?thesis using goal Update by (simp add: step window_inv_def)
  qed
qed

lemma foldl_window_inv:
  "window_inv cfg x c s \<Longrightarrow> sorted (map event_time evs) \<Longrightarrow> \<forall>e \<in> set evs. c \<le> event_time e
   \<Longrightarrow> 0 < timeWindow cfg \<Longrightarrow> \<exists>c'. window_inv cfg x c' (foldl (fc_step cfg) s evs)"
proof (induction evs arbitrary: s c)
  case Nil
  then show ?case by auto
next
  case (Cons e evs)
  have "window_inv cfg x (event_time e) (fc_step cfg s e)"
    using Cons.prems by (intro fc_step_window_inv) auto
  moreover have "sorted (map event_time evs)" and "\<forall>e' \<in> set evs. event_time e \<le> event_time e'"
    using Cons.prems(2) by auto
  ultimately show ?case using Cons.IH Cons.prems(4) by simp
qed

lemma window_inv_initial: "0 < maxRequests cfg \<Longrightarrow> window_inv cfg x c (Map.empty, [])"
  by (simp add: window_inv_def window_ok_def allowed_times_def requests_of_def within_window_def)

lemma in_window_allowed_times:
  "in_window (\<lambda>d. d = Allowed) x w T hist = length (filter (\<lambda>t. t \<le> T \<and> T - t < w) (allowed_times x hist))"
  by (induction hist) (auto simp: in_window_def allowed_times_def)

lemmas fc_eval = fc_run_def floodControl_def floodControl_try_def skip_flood_control_def
  requests_of_def within_window_def timeWindow_def maxRequests_def remainingTime_def
  ceil_div_1000_def Let_def in_window_def next_called_def

lemma run_spaced:
  "snd (fc_run cfg1 [Update (ctx_of 7) 0 Resolves, Update (ctx_of 7) 1 Resolves, Update (ctx_of 7) 1000 Resolves])
     = [(Some 7, 0, Allowed), (Some 7, 1, Rejected (Finite 1)), (Some 7, 1000, Allowed)]"
  by (simp add: fc_eval cfg1_def ctx_of_def)

text \<open>
  Claim C3, as amended. Take any run of updates and clean-ups whose clock readings do
  not decrease, under a configuration with a positive request limit and a positive
  window. For every user and every instant \<open>T\<close>, the updates of that user which the
  rate check itself let pass (recorded in the map; not those passed on by the
  \<open>catch\<close> block) with a reading \<open>t\<close> in the trailing window (\<open>t \<le> T\<close> and
  \<open>T - t < timeWindow\<close>) number at most \<open>maxRequests\<close>.
\<close>

theorem sliding_window_bound:
  assumes "0 < maxRequests cfg" and "0 < timeWindow cfg" and "sorted (map event_time evs)"
  shows "int (in_window (\<lambda>d. d = Allowed) x (timeWindow cfg) T (snd (fc_run cfg evs))) \<le> maxRequests cfg"
proof (cases evs)
  case Nil
  then show ?thesis using assms(1) by (simp add: fc_run_def in_window_def)
next
  case (Cons e es)
  have "\<forall>e' \<in> set evs. event_time e \<le> event_time e'"
    using assms(3) Cons by auto
  then obtain c' where "window_inv cfg x c' (fc_run cfg evs)"
    unfolding fc_run_def
    using foldl_window_inv [OF window_inv_initial [OF assms(1)] assms(3) _ assms(2)] by blast
  then show ?thesis
    by (simp add: window_inv_def window_ok_def in_window_allowed_times)
qed

theorem sliding_window_bound_witness:
  "snd (fc_run cfg1 [Update (ctx_of 7) 0 Resolves, Update (ctx_of 7) 1 Resolves, Update (ctx_of 7) 1000 Resolves])
     = [(Some 7, 0, Allowed), (Some 7, 1, Rejected (Finite 1)), (Some 7, 1000, Allowed)]
   \<and> int (in_window (\<lambda>d. d = Allowed) 7 (timeWindow cfg1) 1000
        (snd (fc_run cfg1 [Update (ctx_of 7) 0 Resolves, Update (ctx_of 7) 1 Resolves, Update (ctx_of 7) 1000 Resolves])))
       \<le> maxRequests cfg1"
proof -
  have m: "0 < maxRequests cfg1" and w: "0 < timeWindow cfg1"
    by (simp_all add: maxRequests_def timeWindow_def cfg1_def)
  have s: "sorted (map event_time [Update (ctx_of 7) 0 Resolves, Update (ctx_of 7) 1 Resolves, Update (ctx_of 7) 1000 Resolves])"
    by simp
  show ?thesis using sliding_window_bound [OF m w s, of 7 1000] run_spaced by simp
qed

text \<open>
  The claim as stated counts every update the middleware passes on. With one request
  allowed per second, user 7 sends an update at 0 (recorded and passed on) and another
  at 1; the cooldown reply to the second is rejected by the platform, the \<open>catch\<close>
  block calls \<open>next()\<close>, and two updates of the same window have been passed on.
\<close>

theorem fail_open_exceeds_limit:
  "sorted (map event_time [Update (ctx_of 7) 0 Resolves, Update (ctx_of 7) 1 (Rejects ''429 Too Many Requests'')])
   \<and> skip_flood_control cfg1 7 = Inr False
   \<and> maxRequests cfg1 = 1 \<and> timeWindow cfg1 = 1000
   \<and> snd (fc_run cfg1 [Update (ctx_of 7) 0 Resolves, Update (ctx_of 7) 1 (Rejects ''429 Too Many Requests'')])
       = [(Some 7, 0, Allowed), (Some 7, 1, FailedOpen ''429 Too Many Requests'')]
   \<and> in_window next_called 7 (timeWindow cfg1) 1
        (snd (fc_run cfg1 [Update (ctx_of 7) 0 Resolves, Update (ctx_of 7) 1 (Rejects ''429 Too Many Requests'')])) = 2
   \<and> \<not> int (in_window next_called 7 (timeWindow cfg1) 1
        (snd (fc_run cfg1 [Update (ctx_of 7) 0 Resolves, Update (ctx_of 7) 1 (Rejects ''429 Too Many Requests'')])))
       \<le> maxRequests cfg1"
  by (simp add: fc_eval cfg1_def ctx_of_def)

text \<open>
  The order of the clock readings matters: with two requests allowed per second and a
  clock that steps back, three updates with the same reading are recorded.
\<close>

lemma window_needs_ordered_clock:
  "in_window (\<lambda>d. d = Allowed) 7 (timeWindow cfg2) 150
     (snd (fc_run cfg2 [Update (ctx_of 7) 150 Resolves, Update (ctx_of 7) 2000 Resolves,
                        Update (ctx_of 7) 150 Resolves, Update (ctx_of 7) 3000 Resolves,
                        Update (ctx_of 7) 150 Resolves])) = 3
   \<and> maxRequests cfg2 = 2"
  by (simp add: fc_eval cfg2_def ctx_of_def)

section \<open>The admin gate\<close>

text \<open>
  Claim C8. For a caller with an id and a well-formed admin list, the gate marks the
  caller as owner exactly when the id is the configured owner id, and as admin exactly
  when the caller is the owner or the id is in the configured admin ids; it calls
  \<open>next()\<close> (and so lets the guarded handler run) exactly when the caller is admin,
  then logging and replying nothing. Otherwise its first log record is the
  \<open>unauthorized_access\<close> record of the caller and its first reply the fixed denial
  text, and these are the only ones when the reply is delivered.
\<close>

theorem admin_gate:
  assumes "sender ctx = Some u" and "ADMINS cfg \<noteq> AdminsMalformed"
  shows "ctx_isOwner (isAdmin cfg ctx denial_io error_io) = (uid u = OWNER_ID cfg)
       \<and> ctx_isAdmin (isAdmin cfg ctx denial_io error_io)
           = (uid u = OWNER_ID cfg \<or> (\<exists>ids. ADMINS cfg = AdminsList ids \<and> uid u \<in> set ids))
       \<and> handler_invoked (isAdmin cfg ctx denial_io error_io)
           = ctx_isAdmin (isAdmin cfg ctx denial_io error_io)
       \<and> (if ctx_isAdmin (isAdmin cfg ctx denial_io error_io)
          then ia_logs (isAdmin cfg ctx denial_io error_io) = []
             \<and> ia_replies (isAdmin cfg ctx denial_io error_io) = []
          else hd (ia_logs (isAdmin cfg ctx denial_io error_io))
                 = UnauthorizedAccess (uid u) (or_unknown (username u)) (or_unknown (message_text ctx))
             \<and> hd (ia_replies (isAdmin cfg ctx denial_io error_io)) = AccessDeniedAdminsOnly
             \<and> (denial_io = Resolves \<longrightarrow>
                  ia_logs (isAdmin cfg ctx denial_io error_io)
                    = [UnauthorizedAccess (uid u) (or_unknown (username u)) (or_unknown (message_text ctx))]
                  \<and> ia_replies (isAdmin cfg ctx denial_io error_io) = [AccessDeniedAdminsOnly]))"
  using assms
  by (cases "ADMINS cfg"; cases denial_io)
     (simp_all add: isAdmin_def isAdmin_try_def Let_def)

theorem admin_gate_witness:
  "isAdmin cfg1 (ctx_of 7) Resolves Resolves =
     \<lparr>handler_invoked = False, ctx_isOwner = False, ctx_isAdmin = False,
      ia_logs = [UnauthorizedAccess 7 ''Unknown'' ''/shutdown''],
      ia_replies = [AccessDeniedAdminsOnly], ia_uncaught = None\<rparr>
   \<and> handler_invoked (isAdmin cfg1 (ctx_of 2) Resolves Resolves)
   \<and> \<not> ctx_isOwner (isAdmin cfg1 (ctx_of 2) Resolves Resolves)
   \<and> ctx_isOwner (isAdmin cfg1 (ctx_of 1) Resolves Resolves)
   \<and> ctx_isAdmin (isAdmin cfg1 (ctx_of 1) Resolves Resolves)"
  using admin_gate [of "ctx_of 7" "\<lparr>uid = 7, username = None\<rparr>" cfg1 Resolves Resolves]
    admin_gate [of "ctx_of 2" "\<lparr>uid = 2, username = None\<rparr>" cfg1 Resolves Resolves]
    admin_gate [of "ctx_of 1" "\<lparr>uid = 1, username = None\<rparr>" cfg1 Resolves Resolves]
  by (simp add: cfg1_def ctx_of_def isAdmin_def isAdmin_try_def or_unknown_def Let_def)

section \<open>The shutdown command\<close>

lemma shutdown_non_owner:
  assumes "sender ctx = Some u" and "uid u \<noteq> OWNER_ID cfg"
  shows "\<not> process_exited (shutdown_execute cfg ctx io)
       \<and> hd (sd_replies (shutdown_execute cfg ctx io)) = AccessDeniedOwnerOnly
       \<and> (\<forall>i n c. UnauthorizedAccess i n c \<notin> set (sd_logs (shutdown_execute cfg ctx io)))"
  using assms
  by (cases "denial_reply io") (simp_all add: shutdown_execute_def shutdown_try_def Let_def)

text \<open>
  Claim C9, evaluated on the code. With owner 1 and admins 2 and 3, admin 2 sends
  /shutdown and every reply is delivered: the gate lets the handler run, the handler
  replies with the fixed owner-only denial and does not end the process, and neither
  the gate nor the handler logs any record; no \<open>unauthorized_access\<close> event is
  emitted.
\<close>

theorem shutdown_by_admin_logs_nothing:
  "shutdown_command cfg1 (ctx_of 2) Resolves Resolves all_resolve =
     (\<lparr>handler_invoked = True, ctx_isOwner = False, ctx_isAdmin = True,
       ia_logs = [], ia_replies = [], ia_uncaught = None\<rparr>,
      Some \<lparr>process_exited = False, sd_logs = [], sd_replies = [AccessDeniedOwnerOnly], sd_uncaught = None\<rparr>)"
  by (simp add: shutdown_command_def isAdmin_def isAdmin_try_def shutdown_execute_def shutdown_try_def
      cfg1_def ctx_of_def all_resolve_def Let_def)

section \<open>The logger: the cap on stored entries\<close>

lemma length_slice_last: "0 < n \<Longrightarrow> length (slice_last n xs) \<le> n"
  by (simp add: slice_last_def)

lemma initializeLogFile_stored: "stored_logs (initializeLogFile io lf) = stored_logs lf"
  by (simp add: initializeLogFile_def stored_logs_def)

lemma log_written:
  "final_write_ok io \<Longrightarrow> read_ok io \<Longrightarrow>
   stored_logs (log this io lf d) =
     (let logs1 = stored_logs lf @ [stamp (clock io) d]
      in if maxLogsPerFile this < length logs1 then slice_last (maxLogsPerFile this) logs1 else logs1)"
  by (simp add: log_def Let_def stored_logs_def initializeLogFile_def split: log_file.splits)

lemma log_not_written:
  "\<not> final_write_ok io \<Longrightarrow> stored_logs (log this io lf d) = stored_logs lf"
  by (simp add: log_def Let_def initializeLogFile_stored)

lemma log_bound:
  assumes "0 < maxLogsPerFile this"
    and "final_write_ok io \<or> length (stored_logs lf) \<le> maxLogsPerFile this"
  shows "length (stored_logs (log this io lf d)) \<le> maxLogsPerFile this"
proof (cases "final_write_ok io")
  case True
  then have "stored_logs (log this io lf d) =
     (let logs = (if read_ok io then stored_logs (initializeLogFile io lf) else []);
          logs1 = logs @ [stamp (clock io) d]
      in if maxLogsPerFile this < length logs1 then slice_last (maxLogsPerFile this) logs1 else logs1)"
    by (simp add: log_def Let_def stored_logs_def)
  then show ?thesis using assms(1) by (simp add: Let_def slice_last_def)
next
  case False
  then show ?thesis using assms(2) by (simp add: log_not_written)
qed

lemma log_all_bound:
  "0 < maxLogsPerFile this \<Longrightarrow> length (stored_logs lf) \<le> maxLogsPerFile this
   \<Longrightarrow> length (stored_logs (log_all this lf calls)) \<le> maxLogsPerFile this"
proof (induction calls arbitrary: lf)
  case Nil
  then show ?case by (simp add: log_all_def)
next
  case (Cons c calls)
  obtain io d where c: "c = (io, d)" by (cases c)
  have "length (stored_logs (log this io lf d)) \<le> maxLogsPerFile this"
    using Cons.prems by (simp add: log_bound)
  from Cons.IH [OF Cons.prems(1) this] show ?case by (simp add: log_all_def c)
qed

text \<open>
  Claim C10. A \<open>log\<close> call of the logger leaves at most 10000 stored entries whenever
  its write succeeds or the file held at most 10000 before, and so does every run of
  \<open>log\<close> calls from such a file. When the file already holds 10000 entries or more
  and the call reads and writes it, only the most recent 10000 (the new entry last) are
  kept; at exactly 10000 the oldest entry is dropped.
\<close>

theorem log_keeps_most_recent_10000:
  "(final_write_ok io \<or> length (stored_logs lf) \<le> 10000
      \<longrightarrow> length (stored_logs (log new_logger io lf d)) \<le> 10000)
   \<and> (length (stored_logs lf) \<le> 10000
      \<longrightarrow> length (stored_logs (log_all new_logger lf calls)) \<le> 10000)
   \<and> (final_write_ok io \<and> read_ok io \<and> 10000 \<le> length (stored_logs lf)
      \<longrightarrow> stored_logs (log new_logger io lf d)
            = drop (length (stored_logs lf) + 1 - 10000) (stored_logs lf @ [stamp (clock io) d])
          \<and> length (stored_logs (log new_logger io lf d)) = 10000)
   \<and> (final_write_ok io \<and> read_ok io \<and> length (stored_logs lf) = 10000
      \<longrightarrow> stored_logs (log new_logger io lf d) = tl (stored_logs lf) @ [stamp (clock io) d])"
proof -
  have m: "maxLogsPerFile new_logger = 10000" by (simp add: new_logger_def)
  have a: "final_write_ok io \<or> length (stored_logs lf) \<le> 10000
      \<longrightarrow> length (stored_logs (log new_logger io lf d)) \<le> 10000"
    using log_bound [of new_logger io lf d] by (simp add: m)
  have b: "length (stored_logs lf) \<le> 10000
      \<longrightarrow> length (stored_logs (log_all new_logger lf calls)) \<le> 10000"
    using log_all_bound [of new_logger lf calls] by (simp add: m)
  have c: "final_write_ok io \<and> read_ok io \<and> 10000 \<le> length (stored_logs lf)
      \<longrightarrow> stored_logs (log new_logger io lf d)
            = drop (length (stored_logs lf) + 1 - 10000) (stored_logs lf @ [stamp (clock io) d])
          \<and> length (stored_logs (log new_logger io lf d)) = 10000"
    by (simp add: log_written m Let_def slice_last_def)
  have d: "final_write_ok io \<and> read_ok io \<and> length (stored_logs lf) = 10000
      \<longrightarrow> stored_logs (log new_logger io lf d) = tl (stored_logs lf) @ [stamp (clock io) d]"
  proof (intro impI, elim conjE)
    assume w: "final_write_ok io" and r: "read_ok io" and l: "length (stored_logs lf) = 10000"
    then have "stored_logs (log new_logger io lf d)
            = drop 1 (stored_logs lf @ [stamp (clock io) d])"
      by (simp add: log_written m Let_def slice_last_def)
    moreover have "stored_logs lf \<noteq> []" using l by auto
    ultimately show "stored_logs (log new_logger io lf d) = tl (stored_logs lf) @ [stamp (clock io) d]"
      using l by (simp add: drop_Suc)
  qed
  from a b c d show ?thesis by blast
qed

theorem log_keeps_most_recent_10000_witness:
  "stored_logs (log new_logger ok_io (LogArray (entry 0 # replicate 9999 (entry 1))) (entry 2))
     = replicate 9999 (entry 1) @ [entry 2]
   \<and> length (stored_logs (log new_logger ok_io (LogArray (entry 0 # replicate 9999 (entry 1))) (entry 2))) = 10000
   \<and> length (stored_logs (log_all new_logger Missing [(ok_io, entry 0), (ok_io, entry 1)])) \<le> 10000"
  using log_keeps_most_recent_10000 [of ok_io "LogArray (entry 0 # replicate 9999 (entry 1))" "entry 2" "[]"]
    log_keeps_most_recent_10000 [of ok_io "Missing" "entry 2" "[(ok_io, entry 0), (ok_io, entry 1)]"]
  by (simp add: stored_logs_def ok_io_def stamp_def entry_def)

section \<open>The broadcast: batching and the loop\<close>

declare make_batches.simps [simp del]

lemma concat_make_batches: "0 < bs \<Longrightarrow> concat (make_batches bs users i) = drop i users"
proof (induction bs users i rule: make_batches.induct)
  case (1 bs users i)
  show ?case
  proof (cases "i < length users")
    case True
    have "concat (make_batches bs users i) = slice users i (i + bs) @ concat (make_batches bs users (i + bs))"
      using True "1.prems" by (subst make_batches.simps) simp
    also have "\<dots> = take bs (drop i users) @ drop (i + bs) users"
      using "1.IH" True "1.prems" by (simp add: slice_def)
    also have "\<dots> = take bs (drop i users) @ drop bs (drop i users)"
      by (simp add: add.commute)
    also have "\<dots> = drop i users"
      by (rule append_take_drop_id)
    finally show ?thesis .
  next
    case False
    then show ?thesis by (subst make_batches.simps) simp
  qed
qed

lemma length_make_batches:
  "0 < bs \<Longrightarrow> length (make_batches bs users i) = (length users - i + bs - 1) div bs"
proof (induction bs users i rule: make_batches.induct)
  case (1 bs users i)
  show ?case
  proof (cases "i < length users")
    case True
    have "length (make_batches bs users i) = Suc (length (make_batches bs users (i + bs)))"
      using True "1.prems" by (subst make_batches.simps) simp
    also have "\<dots> = Suc ((length users - (i + bs) + bs - 1) div bs)"
      using "1.IH" True "1.prems" by simp
    also have "\<dots> = (length users - i + bs - 1) div bs"
    proof (cases "i + bs \<le> length users")
      case le: True
      define a where "a = length users - (i + bs) + bs - 1"
      have e: "length users - i + bs - 1 = a + bs"
        using le "1.prems" by (simp add: a_def)
      have "Suc (a div bs) = (a + bs) div bs"
        using "1.prems" by simp
      also have "\<dots> = (length users - i + bs - 1) div bs"
        by (simp only: e)
      finally show ?thesis by (simp only: a_def)
    next
      case gt: False
      then have a: "length users - (i + bs) + bs - 1 < bs" using "1.prems" by simp
      have b: "bs \<le> length users - i + bs - 1" using True by simp
      have c: "length users - i + bs - 1 < 2 * bs" using gt "1.prems" by arith
      have "(length users - i + bs - 1) div bs = 1"
        using b c "1.prems" by (simp add: div_nat_eqI)
      then show ?thesis using a by simp
    qed
    finally show ?thesis .
  next
    case False
    then have "length users - i + bs - 1 < bs" using "1.prems" by simp
    then show ?thesis using False by (subst make_batches.simps) simp
  qed
qed

lemma nth_make_batches:
  "0 < bs \<Longrightarrow> k < length (make_batches bs users i)
   \<Longrightarrow> make_batches bs users i ! k = take bs (drop (i + k * bs) users)"
proof (induction bs users i arbitrary: k rule: make_batches.induct)
  case (1 bs users i)
  show ?case
  proof (cases "i < length users")
    case True
    have unfold: "make_batches bs users i = slice users i (i + bs) # make_batches bs users (i + bs)"
      using True "1.prems"(1) by (subst make_batches.simps) simp
    show ?thesis
    proof (cases k)
      case 0
      then show ?thesis using unfold by (simp add: slice_def)
    next
      case (Suc j)
      then have "j < length (make_batches bs users (i + bs))"
        using "1.prems"(2) unfold by simp
      then have "make_batches bs users (i + bs) ! j = take bs (drop (i + bs + j * bs) users)"
        using "1.IH" True "1.prems"(1) by simp
      then show ?thesis using unfold Suc by (simp add: add.assoc)
    qed
  next
    case False
    then have "make_batches bs users i = []" by (subst make_batches.simps) simp
    then show ?thesis using "1.prems"(2) by simp
  qed
qed

lemma sends_append [simp]: "sends (a @ b) = sends a @ sends b"
  by (simp add: sends_def)

lemma delivery_failures_append [simp]: "delivery_failures (a @ b) = delivery_failures a @ delivery_failures b"
  by (simp add: delivery_failures_def)

lemma completion_records_append [simp]: "completion_records (a @ b) = completion_records a @ completion_records b"
  by (simp add: completion_records_def)

lemma sends_simps [simp]:
  "sends [] = []"
  "sends (SendMessage i # tr) = i # sends tr"
  "sends (Logged r # tr) = sends tr"
  "sends (Replied p # tr) = sends tr"
  "sends (EditStatus m # tr) = sends tr"
  "sends (Delay k # tr) = sends tr"
  by (simp_all add: sends_def)

lemma delivery_failures_simps [simp]:
  "delivery_failures [] = []"
  "delivery_failures (SendMessage i # tr) = delivery_failures tr"
  "delivery_failures (Logged (BroadcastDeliveryFailed i e) # tr) = (i, e) # delivery_failures tr"
  "delivery_failures (Logged (AdminCommand c a b l) # tr) = delivery_failures tr"
  "delivery_failures (Logged (AdminCommandError c oi ou e) # tr) = delivery_failures tr"
  "delivery_failures (Logged (BroadcastCompleted a1 a2 a3 a4 a5 a6 a7) # tr) = delivery_failures tr"
  "delivery_failures (Replied p # tr) = delivery_failures tr"
  "delivery_failures (EditStatus m # tr) = delivery_failures tr"
  "delivery_failures (Delay k # tr) = delivery_failures tr"
  by (simp_all add: delivery_failures_def)

lemma completion_records_simps [simp]:
  "completion_records [] = []"
  "completion_records (SendMessage i # tr) = completion_records tr"
  "completion_records (Logged (BroadcastDeliveryFailed i e) # tr) = completion_records tr"
  "completion_records (Logged (AdminCommand c a b l) # tr) = completion_records tr"
  "completion_records (Logged (AdminCommandError c oi ou e) # tr) = completion_records tr"
  "completion_records (Logged (BroadcastCompleted a1 a2 a3 a4 a5 a6 a7) # tr)
     = BroadcastCompleted a1 a2 a3 a4 a5 a6 a7 # completion_records tr"
  "completion_records (Replied p # tr) = completion_records tr"
  "completion_records (EditStatus m # tr) = completion_records tr"
  "completion_records (Delay k # tr) = completion_records tr"
  by (simp_all add: completion_records_def)

lemma rounds_append: "rounds (a @ b) = foldl round_step (rounds a) b"
  by (simp add: rounds_def)

text \<open>One batch: the trace and the counters.\<close>

lemma foldl_count_trace: "trace (foldl (count_result bt send) st xs) = trace st"
  by (induction xs arbitrary: st) (simp_all add: count_result_def Let_def)

lemma foldl_count_counts:
  "successCount (foldl (count_result bt send) st xs)
     = successCount st + length (filter (\<lambda>u. sendMessageToUser bt send (uid u) = Delivered) xs)
   \<and> failureCount (foldl (count_result bt send) st xs)
     = failureCount st + length (filter (\<lambda>u. sendMessageToUser bt send (uid u) \<noteq> Delivered) xs)
   \<and> processedCount (foldl (count_result bt send) st xs) = processedCount st + length xs"
  by (induction xs arbitrary: st) (simp_all add: count_result_def Let_def)

lemma length_filter_sort_key: "length (filter P (sort_key f xs)) = length (filter P xs)"
  by (simp add: filter_sort)


lemma run_batch_trace:
  "trace (run_batch bt env st batch) =
     trace st @ concat (map (started_events bt (send_io env)) batch)
       @ concat (map (settled_events bt (send_io env)) (sort_key (\<lambda>u. settle_time env (uid u)) batch))"
  by (simp add: run_batch_def Let_def foldl_count_trace)

lemma run_batch_counts:
  "successCount (run_batch bt env st batch)
     = successCount st + length (filter (\<lambda>u. sendMessageToUser bt (send_io env) (uid u) = Delivered) batch)
   \<and> failureCount (run_batch bt env st batch)
     = failureCount st + length (filter (\<lambda>u. sendMessageToUser bt (send_io env) (uid u) \<noteq> Delivered) batch)
   \<and> processedCount (run_batch bt env st batch) = processedCount st + length batch"
  by (simp add: run_batch_def Let_def foldl_count_counts length_filter_sort_key)



lemma delivered_with_client:
  "filter (\<lambda>u. sendMessageToUser ApiClient send (uid u) = Delivered) xs = []"
  by (induction xs) (auto simp: sendMessageToUser_def)

lemma failed_with_client:
  "filter (\<lambda>u. sendMessageToUser ApiClient send (uid u) \<noteq> Delivered) xs = xs"
  by (induction xs) (auto simp: sendMessageToUser_def)

lemma started_sends:
  "sends (concat (map (started_events bt send) xs))
     = (case bt of TelegrafInstance \<Rightarrow> map uid xs | ApiClient \<Rightarrow> [])"
  by (induction xs) (auto simp: started_events_def sendMessageToUser_def split: bot_arg.splits io_result.splits)

lemma settled_sends: "sends (concat (map (settled_events bt send) xs)) = []"
  by (induction xs) (auto simp: settled_events_def sendMessageToUser_def split: bot_arg.splits io_result.splits)



lemma started_completion: "completion_records (concat (map (started_events bt send) xs)) = []"
  by (induction xs) (auto simp: started_events_def sendMessageToUser_def split: bot_arg.splits io_result.splits)

lemma settled_completion: "completion_records (concat (map (settled_events bt send) xs)) = []"
  by (induction xs) (auto simp: settled_events_def sendMessageToUser_def split: bot_arg.splits io_result.splits)

lemma started_rounds:
  "foldl round_step (fin, cur) (concat (map (started_events bt send) xs))
     = (fin, cur @ (case bt of TelegrafInstance \<Rightarrow> map uid xs | ApiClient \<Rightarrow> []))"
  by (induction xs arbitrary: cur)
     (auto simp: started_events_def sendMessageToUser_def split: bot_arg.splits io_result.splits)

lemma settled_rounds:
  "foldl round_step (fin, cur) (concat (map (settled_events bt send) xs)) = (fin, cur)"
  by (induction xs) (auto simp: settled_events_def sendMessageToUser_def split: bot_arg.splits io_result.splits)


lemma report_progress_eq:
  "report_progress env n st =
     st\<lparr>trace := trace st @ [EditStatus (ProgressMessage (successCount st) (failureCount st) (processedCount st) n)]\<rparr>"
  by (simp add: report_progress_def Let_def split: io_result.splits)

lemma resolving_Nil [simp]: "resolving send [] = []"
  by (simp add: resolving_def)

lemma rejecting_Nil [simp]: "rejecting send [] = []"
  by (simp add: rejecting_def)

lemma resolving_append [simp]: "resolving send (a @ b) = resolving send a @ resolving send b"
  by (simp add: resolving_def)

lemma rejecting_append [simp]: "rejecting send (a @ b) = rejecting send a @ rejecting send b"
  by (simp add: rejecting_def)

text \<open>The loop.\<close>

lemma run_batches_counts:
  "successCount (run_batches bt env n batches st)
     = successCount st + length (filter (\<lambda>u. sendMessageToUser bt (send_io env) (uid u) = Delivered) (concat batches))
   \<and> failureCount (run_batches bt env n batches st)
     = failureCount st + length (filter (\<lambda>u. sendMessageToUser bt (send_io env) (uid u) \<noteq> Delivered) (concat batches))
   \<and> processedCount (run_batches bt env n batches st) = processedCount st + length (concat batches)"
proof (induction batches arbitrary: st)
  case Nil
  then show ?case by simp
next
  case (Cons b batches)
  show ?case
    by (simp add: Cons.IH Let_def report_progress_eq run_batch_counts)
qed

lemma run_batches_sends:
  "sends (trace (run_batches bt env n batches st))
     = sends (trace st) @ (case bt of TelegrafInstance \<Rightarrow> map uid (concat batches) | ApiClient \<Rightarrow> [])"
proof (induction batches arbitrary: st)
  case Nil
  then show ?case by (simp split: bot_arg.splits)
next
  case (Cons b batches)
  show ?case
    by (simp add: Cons.IH Let_def report_progress_eq run_batch_trace started_sends settled_sends
        split: bot_arg.splits)
qed


lemma run_batches_completion:
  "completion_records (trace (run_batches bt env n batches st)) = completion_records (trace st)"
proof (induction batches arbitrary: st)
  case Nil
  then show ?case by simp
next
  case (Cons b batches)
  show ?case
    by (simp add: Cons.IH Let_def report_progress_eq run_batch_trace started_completion settled_completion)
qed

lemma run_batches_rounds:
  "rounds (trace st) = (fin, []) \<Longrightarrow>
   rounds (trace (run_batches TelegrafInstance env n batches st)) = (fin @ map (map uid) batches, [])"
proof (induction batches arbitrary: st fin)
  case Nil
  then show ?case by simp
next
  case (Cons b batches)
  let ?st1 = "run_batch TelegrafInstance env st b"
  let ?st2 = "report_progress env n ?st1"
  let ?st3 = "if batches \<noteq> [] then ?st2\<lparr>trace := trace ?st2 @ [Delay 1000]\<rparr> else ?st2"
  have r1: "rounds (trace ?st1) = (fin, map uid b)"
    using Cons.prems by (simp add: run_batch_trace rounds_append started_rounds settled_rounds)
  have r2: "rounds (trace ?st2) = (fin @ [map uid b], [])"
    using r1 by (simp add: report_progress_eq rounds_append)
  have r3: "rounds (trace ?st3) = (fin @ [map uid b], [])"
    using r2 by (simp add: rounds_append)
  have "run_batches TelegrafInstance env n (b # batches) st = run_batches TelegrafInstance env n batches ?st3"
    by (simp add: Let_def)
  then show ?case using Cons.IH [OF r3] by simp
qed

text \<open>The handler around the loop.\<close>

lemma broadcast_with_started:
  assumes "sender ctx = Some admin" and "arg = Argument m" and "m \<noteq> []"
    and "all_users env \<noteq> []"
    and "reply_io env (BroadcastConfirmation m (length (all_users env))) = Resolves"
    and "reply_io env StartingBroadcast = Resolves"
  shows "snd (broadcast_with bs env ctx arg) =
     (let st4 = run_batches ApiClient env (length (all_users env)) (make_batches bs (all_users env) 0)
                  (started admin m (length (all_users env)))
      in st4\<lparr>trace := trace st4 @ closing env admin m st4\<rparr>)"
  using assms
  by (simp add: broadcast_with_def broadcast_try_def reply_to_def edit_status_def logged_def
      started_def closing_def Let_def split: io_result.splits)

lemma broadcast_with_no_users:
  assumes "sender ctx = Some admin" and "arg = Argument m" and "m \<noteq> []"
    and "all_users env = []"
  shows "sends (trace (snd (broadcast_with bs env ctx arg))) = []
       \<and> successCount (snd (broadcast_with bs env ctx arg)) = 0
       \<and> failureCount (snd (broadcast_with bs env ctx arg)) = 0
       \<and> processedCount (snd (broadcast_with bs env ctx arg)) = 0
       \<and> delivery_failures (trace (snd (broadcast_with bs env ctx arg))) = []
       \<and> rounds (trace (snd (broadcast_with bs env ctx arg))) = ([], [])"
  using assms
  by (simp add: broadcast_with_def broadcast_try_def reply_to_def logged_def Let_def rounds_def
      split: io_result.splits)

lemma closing_readings:
  "sends (closing env admin m st) = []"
  "delivery_failures (closing env admin m st) = []"
  "foldl round_step r (closing env admin m st) = r"
  by (cases r; simp add: closing_def Let_def split: io_result.splits)+

lemma started_readings:
  "sends (trace (started admin m n)) = []"
  "delivery_failures (trace (started admin m n)) = []"
  "rounds (trace (started admin m n)) = ([], [])"
  "successCount (started admin m n) = 0"
  "failureCount (started admin m n) = 0"
  "processedCount (started admin m n) = 0"
  "completion_records (trace (started admin m n)) = []"
  by (simp_all add: started_def rounds_def)

lemma count_split:
  "length (resolving send us) + length (rejecting send us) = length us"
  by (induction us) (auto simp: resolving_def rejecting_def split: io_result.splits)


lemma closing_completion:
  "completion_records (closing env admin m st) =
     (case edit_io env (CompletedMessage (successCount st) (failureCount st) (length (all_users env))
                          (round_div_1000 (endTime env - startTime env))) of
        Resolves \<Rightarrow> [BroadcastCompleted (uid admin) (or_unknown (username admin)) (length (all_users env))
                       (successCount st) (failureCount st)
                       (round_div_1000 (endTime env - startTime env)) m]
      | Rejects e \<Rightarrow> [])"
  by (simp add: closing_def Let_def split: io_result.splits)

lemma broadcast_makes_no_call:
  assumes "sender ctx = Some admin" and "arg = Argument m" and "m \<noteq> []"
    and "reply_io env (BroadcastConfirmation m (length (all_users env))) = Resolves"
    and "reply_io env StartingBroadcast = Resolves"
  shows "sends (trace (snd (broadcast_with bs env ctx arg))) = []
       \<and> successCount (snd (broadcast_with bs env ctx arg)) = 0"
proof (cases "all_users env = []")
  case True
  then show ?thesis using broadcast_with_no_users [OF assms(1,2,3) True, of bs] by simp
next
  case False
  show ?thesis
    using broadcast_with_started [OF assms(1,2,3) False assms(4,5), of bs]
    by (simp add: Let_def closing_readings run_batches_sends run_batches_counts started_readings
        delivered_with_client)
qed

lemma dispatch_partition_and_tally:
  assumes "0 < bs" and "sender ctx = Some admin" and "arg = Argument m" and "m \<noteq> []"
    and "reply_io env (BroadcastConfirmation m (length (all_users env))) = Resolves"
    and "reply_io env StartingBroadcast = Resolves"
  shows "concat (make_batches bs (all_users env) 0) = all_users env
       \<and> length (make_batches bs (all_users env) 0) = (length (all_users env) + bs - 1) div bs
       \<and> (\<forall>k < length (make_batches bs (all_users env) 0).
            make_batches bs (all_users env) 0 ! k = take bs (drop (k * bs) (all_users env)))
       \<and> successCount (snd (broadcast_with bs env ctx arg)) + failureCount (snd (broadcast_with bs env ctx arg))
           = length (all_users env)
       \<and> processedCount (snd (broadcast_with bs env ctx arg)) = length (all_users env)"
proof -
  let ?users = "all_users env"
  let ?batches = "make_batches bs ?users 0"
  let ?st = "snd (broadcast_with bs env ctx arg)"
  have part: "concat ?batches = ?users"
    using assms(1) by (simp add: concat_make_batches)
  have len: "length ?batches = (length ?users + bs - 1) div bs"
    using assms(1) by (simp add: length_make_batches)
  have nth: "\<forall>k < length ?batches. ?batches ! k = take bs (drop (k * bs) ?users)"
    using assms(1) by (simp add: nth_make_batches)
  have run: "successCount ?st + failureCount ?st = length ?users \<and> processedCount ?st = length ?users"
  proof (cases "?users = []")
    case True
    then show ?thesis
      using broadcast_with_no_users [OF assms(2,3,4) True, of bs] by simp
  next
    case False
    show ?thesis
      using broadcast_with_started [OF assms(2,3,4) False assms(5,6), of bs]
      by (simp add: Let_def run_batches_counts started_readings part delivered_with_client failed_with_client)
  qed
  from part len nth run show ?thesis by blast
qed

lemma dispatch_with_bot_instance:
  assumes "0 < bs" and "rounds (trace st) = (fin, [])"
  shows "rounds (trace (run_batches TelegrafInstance env n (make_batches bs users 0) st))
           = (fin @ map (map uid) (make_batches bs users 0), [])
       \<and> sends (trace (run_batches TelegrafInstance env n (make_batches bs users 0) st))
           = sends (trace st) @ map uid users"
  using assms by (simp add: run_batches_rounds run_batches_sends concat_make_batches)

section \<open>The broadcast: partition, order and calls of sendMessage\<close>

text \<open>
  What holds of the handler once it is past its checks is in
  \<open>dispatch_partition_and_tally\<close>: for every positive batch size the batches are the
  consecutive blocks of the snapshot, and delivered plus failed, like the processed
  count, equal the number of users. With a bot instance the loop calls \<open>sendMessage\<close>
  once per user, batch by batch between the progress edits
  (\<open>dispatch_with_bot_instance\<close>). The handler itself makes no call at all
  (\<open>broadcast_makes_no_call\<close>).
\<close>

text \<open>
  Claim C1, evaluated on the code. Three registered users; a call of \<open>sendMessage\<close>
  for users 1 and 3 would resolve. The handler passes \<open>ctx.telegram\<close> as \<open>bot\<close>, so
  \<open>bot.telegram.sendMessage\<close> throws for every recipient before any call is made: the
  trace holds no \<open>sendMessage\<close> call, all three recipients are counted as failed, and
  the job ends with delivered 0, failed 3.
\<close>

theorem broadcast_never_calls_sendMessage:
  "send_io env3 1 = Resolves \<and> send_io env3 3 = Resolves
   \<and> snd (broadcast_execute env3 (ctx_of 1) (Argument ''hello'')) =
     \<lparr>trace = [Logged (AdminCommand ''/broadcast'' 1 ''Unknown'' (Some 5)),
               Replied (BroadcastConfirmation ''hello'' 3), Replied StartingBroadcast,
               Logged (BroadcastDeliveryFailed 1 ''Cannot read properties of undefined (reading sendMessage)''),
               Logged (BroadcastDeliveryFailed 2 ''Cannot read properties of undefined (reading sendMessage)''),
               Logged (BroadcastDeliveryFailed 3 ''Cannot read properties of undefined (reading sendMessage)''),
               EditStatus (ProgressMessage 0 3 3 3),
               EditStatus (CompletedMessage 0 3 3 1),
               Logged (BroadcastCompleted 1 ''Unknown'' 3 0 3 1 ''hello'')],
      successCount = 0, failureCount = 3, processedCount = 3\<rparr>
   \<and> sends (trace (snd (broadcast_execute env3 (ctx_of 1) (Argument ''hello'')))) = []"
proof -
  have b: "make_batches batchSize [x, y, z] 0 = [[x, y, z]]" for x y z :: tg_user
    by (simp add: make_batches.simps slice_def batchSize_def)
  have e: "snd (broadcast_execute env3 (ctx_of 1) (Argument ''hello'')) =
     \<lparr>trace = [Logged (AdminCommand ''/broadcast'' 1 ''Unknown'' (Some 5)),
               Replied (BroadcastConfirmation ''hello'' 3), Replied StartingBroadcast,
               Logged (BroadcastDeliveryFailed 1 ''Cannot read properties of undefined (reading sendMessage)''),
               Logged (BroadcastDeliveryFailed 2 ''Cannot read properties of undefined (reading sendMessage)''),
               Logged (BroadcastDeliveryFailed 3 ''Cannot read properties of undefined (reading sendMessage)''),
               EditStatus (ProgressMessage 0 3 3 3),
               EditStatus (CompletedMessage 0 3 3 1),
               Logged (BroadcastCompleted 1 ''Unknown'' 3 0 3 1 ''hello'')],
      successCount = 0, failureCount = 3, processedCount = 3\<rparr>"
    by (simp add: broadcast_execute_def broadcast_with_def broadcast_try_def env3_def ctx_of_def b
        reply_to_def edit_status_def logged_def Let_def run_batch_def count_result_def
        started_events_def settled_events_def sendMessageToUser_def
        report_progress_def user_def or_unknown_def round_div_1000_def)
  show ?thesis by (simp add: e) (simp add: env3_def)
qed

section \<open>The broadcast: failures of single deliveries\<close>



section \<open>The broadcast: progress edits and the completion record\<close>

text \<open>
  The outcome of the progress edits does not matter: when the completion edit resolves,
  exactly one completion record is logged, with the admin, the number of users, both
  counts, the elapsed seconds and the message.
\<close>

lemma progress_failures_swallowed:
  assumes "0 < bs" and "sender ctx = Some admin" and "arg = Argument m" and "m \<noteq> []"
    and "all_users env \<noteq> []"
    and "reply_io env (BroadcastConfirmation m (length (all_users env))) = Resolves"
    and "reply_io env StartingBroadcast = Resolves"
    and "edit_io env (CompletedMessage 0 (length (all_users env)) (length (all_users env))
                          (round_div_1000 (endTime env - startTime env))) = Resolves"
  shows "completion_records (trace (snd (broadcast_with bs env ctx arg))) =
           [BroadcastCompleted (uid admin) (or_unknown (username admin)) (length (all_users env))
              0 (length (all_users env)) (round_div_1000 (endTime env - startTime env)) m]"
proof -
  let ?users = "all_users env"
  let ?st4 = "run_batches ApiClient env (length ?users) (make_batches bs ?users 0) (started admin m (length ?users))"
  have st: "snd (broadcast_with bs env ctx arg) = ?st4\<lparr>trace := trace ?st4 @ closing env admin m ?st4\<rparr>"
    using broadcast_with_started [OF assms(2,3,4,5,6,7), of bs] by (simp add: Let_def)
  have part: "concat (make_batches bs ?users 0) = ?users"
    using assms(1) by (simp add: concat_make_batches)
  have s4: "successCount ?st4 = 0" and f4: "failureCount ?st4 = length ?users"
    by (simp_all add: run_batches_counts started_readings part delivered_with_client failed_with_client)
  show ?thesis
    using assms(8)
    by (simp add: st closing_completion s4 f4 run_batches_completion started_readings)
qed

text \<open>
  Claim C4, evaluated on the code. One registered user, and a status message that can
  no longer be edited. The rejected progress edit is swallowed, but the completion edit
  of the same message is awaited outside any inner \<open>try\<close>: its rejection reaches the
  outer \<open>catch\<close>, which logs \<open>admin_command_error\<close> and replies with the general
  error text. No completion record is logged, although the loop ran to its end.
\<close>

theorem broadcast_summary_lost_when_final_edit_fails:
  "snd (broadcast_execute env_expired (ctx_of 1) (Argument ''hello'')) =
     \<lparr>trace = [Logged (AdminCommand ''/broadcast'' 1 ''Unknown'' (Some 5)),
               Replied (BroadcastConfirmation ''hello'' 1), Replied StartingBroadcast,
               Logged (BroadcastDeliveryFailed 7 ''Cannot read properties of undefined (reading sendMessage)''),
               EditStatus (ProgressMessage 0 1 1 1),
               EditStatus (CompletedMessage 0 1 1 1),
               Logged (AdminCommandError ''/broadcast'' (Some 1) None ''Bad Request: message to edit not found''),
               Replied GeneralError],
      successCount = 0, failureCount = 1, processedCount = 1\<rparr>
   \<and> completion_records (trace (snd (broadcast_execute env_expired (ctx_of 1) (Argument ''hello'')))) = []"
proof -
  have b: "make_batches batchSize [x] 0 = [[x]]" for x :: tg_user
    by (simp add: make_batches.simps slice_def batchSize_def)
  have e: "snd (broadcast_execute env_expired (ctx_of 1) (Argument ''hello'')) =
     \<lparr>trace = [Logged (AdminCommand ''/broadcast'' 1 ''Unknown'' (Some 5)),
               Replied (BroadcastConfirmation ''hello'' 1), Replied StartingBroadcast,
               Logged (BroadcastDeliveryFailed 7 ''Cannot read properties of undefined (reading sendMessage)''),
               EditStatus (ProgressMessage 0 1 1 1),
               EditStatus (CompletedMessage 0 1 1 1),
               Logged (AdminCommandError ''/broadcast'' (Some 1) None ''Bad Request: message to edit not found''),
               Replied GeneralError],
      successCount = 0, failureCount = 1, processedCount = 1\<rparr>"
    by (simp add: broadcast_execute_def broadcast_with_def broadcast_try_def env_expired_def ctx_of_def b
        reply_to_def edit_status_def logged_def Let_def run_batch_def count_result_def
        started_events_def settled_events_def sendMessageToUser_def
        report_progress_def user_def or_unknown_def round_div_1000_def)
  show ?thesis by (simp add: e)
qed

end
